theory Spec2Isabelle
  imports Main
begin

section \<open>Data model\<close>

text \<open>
  The transition engine of the navigation library (\<^verbatim>\<open>internal/shared.ts\<close>,
  \<^verbatim>\<open>internal/memory.ts\<close>) is embedded as pure functions over explicit state.
  Field names follow the source; a name that is an Isabelle keyword or a HOL constant
  carries a prime (\<open>id'\<close>, \<open>type'\<close>, \<open>from'\<close>, \<open>to'\<close>, \<open>back'\<close>), and a name used by two
  source structures is prefixed in the second one.

  JavaScript numbers that hold indices, deltas and bounds are modelled as \<open>int\<close>;
  UUID strings are modelled as natural numbers, of which only equality is used.
\<close>

type_synonym Uuid = nat

text \<open>
  Values of TypeScript type \<^verbatim>\<open>unknown\<close> (history state, info). Only one shape is
  inspected by the code: a non-array object that has both marker fields
  \<^verbatim>\<open>__typed__navigation__id__\<close> and \<^verbatim>\<open>__typed__navigation__key__\<close>
  (\<^verbatim>\<open>isPatchedState\<close>); every other value is opaque.
\<close>

datatype JsValue =
    Undefined
  | Null
  | Opaque nat
  | PatchedState Uuid Uuid JsValue

record URL =
  origin :: string
  pathname :: string
  search :: string
  hash :: string

datatype PathOrUrl = PathString string | UrlObject URL

record ProposedDestination =
  url :: URL
  state :: JsValue
  sameDocument :: bool

record Destination = ProposedDestination +
  id' :: Uuid
  key :: Uuid

datatype NavigationType = Push | Replace | Reload | Traverse

datatype Target = Dest Destination | Proposed ProposedDestination

record TransitionEvent =
  type' :: NavigationType
  from' :: Destination
  delta :: int
  to' :: Target
  info :: JsValue

record NavigationEvent =
  nav_type :: NavigationType
  destination :: Destination
  nav_info :: JsValue

record NavigationState =
  entries :: "Destination list"
  index :: int
  transition :: "TransitionEvent option"

datatype History = HReplace | HPush | HAuto

text \<open>
  \<^verbatim>\<open>NavigateOptions\<close>: every field is optional in the source. An absent
  \<open>state\<close> or \<open>info\<close> reads as \<open>Undefined\<close>, as \<^verbatim>\<open>options?.state\<close> does.
\<close>

record NavigateOptions =
  history :: "History option"
  opt_state :: JsValue
  opt_info :: JsValue

text \<open>
  The two control-flow failures of a before-handler. A \<^verbatim>\<open>RedirectError\<close>
  carries \<open>path\<close> and the \<open>state\<close> and \<open>info\<close> of its optional \<open>options\<close>
  (\<open>Undefined\<close> when absent).
\<close>

datatype BeforeError = RedirectError PathOrUrl JsValue JsValue | CancelNavigation

text \<open>
  How an operation ends: with a destination, with a \<^verbatim>\<open>NavigationError\<close> carrying
  its cause, or with a defect (\<^verbatim>\<open>Effect.dieMessage\<close>, a thrown \<^verbatim>\<open>TypeError\<close>).
  \<open>UndefinedEntry\<close> marks the runs in which \<^verbatim>\<open>entries[index]\<close> is read out of
  range and the source goes on with \<^verbatim>\<open>undefined\<close>; the model does not follow
  such a run any further.
\<close>

datatype 'a Exit = Success 'a | Failure JsValue | Die string | UndefinedEntry

section \<open>Array primitives\<close>

text \<open>
  \<^verbatim>\<open>Array.prototype.slice\<close>: a negative bound counts from the end, and every
  bound is cut to \<open>[0, length]\<close>.
\<close>

definition relativeIndex :: "int \<Rightarrow> nat \<Rightarrow> nat" where
  "relativeIndex i n = (if i < 0 then nat (max (int n + i) 0) else min (nat i) n)"

definition slice :: "'a list \<Rightarrow> int \<Rightarrow> int \<Rightarrow> 'a list" where
  "slice xs start fin =
     (let k = relativeIndex start (length xs); f = relativeIndex fin (length xs)
      in take (f - k) (drop k xs))"

definition sliceFrom :: "'a list \<Rightarrow> int \<Rightarrow> 'a list" where
  "sliceFrom xs start = drop (relativeIndex start (length xs)) xs"

text \<open>\<^verbatim>\<open>xs[i]\<close>: \<open>None\<close> stands for \<^verbatim>\<open>undefined\<close>.\<close>

definition entryAt :: "'a list \<Rightarrow> int \<Rightarrow> 'a option" where
  "entryAt xs i = (if 0 \<le> i \<and> i < int (length xs) then Some (xs ! nat i) else None)"

text \<open>\<^verbatim>\<open>Array.prototype.findIndex\<close>: the first position that satisfies \<open>P\<close>, or \<open>-1\<close>.\<close>

fun findIndexFrom :: "int \<Rightarrow> ('a \<Rightarrow> bool) \<Rightarrow> 'a list \<Rightarrow> int" where
  "findIndexFrom i P [] = -1"
| "findIndexFrom i P (x # xs) = (if P x then i else findIndexFrom (i + 1) P xs)"

definition findIndex :: "('a \<Rightarrow> bool) \<Rightarrow> 'a list \<Rightarrow> int" where
  "findIndex P xs = findIndexFrom 0 P xs"

section \<open>The state cell of the memory adapter\<close>

text \<open>\<^verbatim>\<open>clampNavigationState\<close> (\<^verbatim>\<open>internal/memory.ts\<close>).\<close>

definition clampNavigationState :: "int \<Rightarrow> NavigationState \<Rightarrow> NavigationState" where
  "clampNavigationState maxEntries s =
     (let es = sliceFrom (entries s) (- maxEntries);
          i = min (max 0 (index s)) (int (length es) - 1)
      in \<lparr>entries = es, index = i, transition = transition s\<rparr>)"

section \<open>Effects, handlers and the environment\<close>

text \<open>
  An effect is a state transformer over a world \<open>'w\<close>, which stands for everything
  outside the engine that handlers and the adapter's commit may read or change.
  A before-handler either fails with a \<open>BeforeError\<close> or succeeds with an optional
  deferred effect, which may fail in turn. An after-handler cannot fail and returns an
  optional deferred effect. A commit either succeeds or fails with the cause of a
  \<^verbatim>\<open>NavigationError\<close>. The captured context of a handler is part of the handler.
\<close>

type_synonym 'w Deferred = "'w \<Rightarrow> BeforeError option \<times> 'w"

type_synonym 'w BeforeNavigationHandler =
  "TransitionEvent \<Rightarrow> 'w \<Rightarrow> (BeforeError + 'w Deferred option) \<times> 'w"

type_synonym 'w NavigationHandler =
  "NavigationEvent \<Rightarrow> 'w \<Rightarrow> ('w \<Rightarrow> 'w) option \<times> 'w"

type_synonym 'w Commit =
  "Destination \<Rightarrow> TransitionEvent \<Rightarrow> 'w \<Rightarrow> JsValue option \<times> 'w"

text \<open>
  What \<^verbatim>\<open>setupFromModelAndIntent\<close> closes over. \<open>maxEntries\<close> is \<open>Some N\<close> for
  the memory adapter, whose cell is wrapped in the clamp, and \<open>None\<close> for the window
  adapters, whose cell is plain. The two handler sets are JavaScript \<^verbatim>\<open>Set\<close>s,
  iterated in insertion order, hence lists. \<open>getRandomValues\<close> is the sequence of
  UUIDs the injected random source yields, and \<open>newURL\<close> is the platform's
  \<^verbatim>\<open>new URL(path, base)\<close>.
\<close>

record 'w Env =
  env_origin :: string
  maxEntries :: "int option"
  beforeHandlers :: "'w BeforeNavigationHandler list"
  handlers :: "'w NavigationHandler list"
  commit :: "'w Commit"
  newNavigationState :: "('w \<Rightarrow> NavigationState) option"
  getRandomValues :: "nat \<Rightarrow> Uuid"
  newURL :: "string \<Rightarrow> string \<Rightarrow> URL"

text \<open>
  The mutable part: the value stored in the cell, the values written to the cell so
  far, oldest first, the number of UUIDs drawn so far, and the world. \<open>writes\<close> is
  what the cell offers to the observers of its change stream (the \<open>transition\<close>
  projection among them).
\<close>

record 'w Sys =
  cell :: NavigationState
  writes :: "NavigationState list"
  drawn :: nat
  world :: 'w

text \<open>
  Modelled from the spec: \<^verbatim>\<open>LazyRef.transform\<close> of the library
  \<^verbatim>\<open>@typed/lazy-ref\<close>, which is not part of the repository. The bound "is applied
  as a transform on every read/write": a read returns the clamp of the stored value; a
  write stores the clamp of the written value and returns it as a read would.
  \<open>cellTransform\<close> is the transform of the cell: the clamp for the memory adapter,
  the identity for a plain cell. \<open>cellWrite\<close> stores a value and records it in
  \<open>writes\<close>.
\<close>

definition cellTransform :: "'w Env \<Rightarrow> NavigationState \<Rightarrow> NavigationState" where
  "cellTransform env a =
     (case maxEntries env of
        Some N \<Rightarrow> clampNavigationState N a
      | None \<Rightarrow> a)"

definition cellGet :: "'w Env \<Rightarrow> 'w Sys \<Rightarrow> NavigationState" where
  "cellGet env s = cellTransform env (cell s)"

definition cellWrite :: "NavigationState \<Rightarrow> 'w Sys \<Rightarrow> 'w Sys" where
  "cellWrite a s = s\<lparr>cell := a, writes := writes s @ [a]\<rparr>"

definition cellSet :: "'w Env \<Rightarrow> NavigationState \<Rightarrow> 'w Sys \<Rightarrow> NavigationState \<times> 'w Sys" where
  "cellSet env a s =
     (cellTransform env (cellTransform env a), cellWrite (cellTransform env a) s)"

text \<open>
  The configurations in which the clamp is a bound: a clamped cell has \<open>maxEntries\<close>
  of at least one. A plain cell has no bound.
\<close>

definition wellConfigured :: "'w Env \<Rightarrow> bool" where
  "wellConfigured env = (case maxEntries env of Some N \<Rightarrow> 1 \<le> N | None \<Rightarrow> True)"

section \<open>Destinations\<close>

definition getUrl :: "'w Env \<Rightarrow> string \<Rightarrow> PathOrUrl \<Rightarrow> URL" where
  "getUrl env orig urlOrPath =
     (case urlOrPath of PathString p \<Rightarrow> newURL env p orig | UrlObject u \<Rightarrow> u)"

fun isPatchedState :: "JsValue \<Rightarrow> bool" where
  "isPatchedState (PatchedState i k v) = True"
| "isPatchedState _ = False"

fun getOriginalState :: "JsValue \<Rightarrow> JsValue" where
  "getOriginalState (PatchedState i k v) = v"
| "getOriginalState v = v"

definition makeUuid :: "'w Env \<Rightarrow> 'w Sys \<Rightarrow> Uuid \<times> 'w Sys" where
  "makeUuid env s = (getRandomValues env (drawn s), s\<lparr>drawn := Suc (drawn s)\<rparr>)"

definition makeDestination ::
  "'w Env \<Rightarrow> URL \<Rightarrow> JsValue \<Rightarrow> string \<Rightarrow> 'w Sys \<Rightarrow> Destination \<times> 'w Sys" where
  "makeDestination env u st orig s =
     (case st of
        PatchedState i k v \<Rightarrow>
          (\<lparr>url = u, state = v, sameDocument = (origin u = orig), id' = i, key = k\<rparr>, s)
      | _ \<Rightarrow>
          (let (i, s1) = makeUuid env s;
               (k, s2) = makeUuid env s1
           in (\<lparr>url = u, state = st, sameDocument = (origin u = orig), id' = i, key = k\<rparr>,
               s2)))"

definition upgradeProposedDestination ::
  "'w Env \<Rightarrow> ProposedDestination \<Rightarrow> 'w Sys \<Rightarrow> Destination \<times> 'w Sys" where
  "upgradeProposedDestination env proposed s =
     (let (i, s1) = makeUuid env s;
          (k, s2) = makeUuid env s1
      in (\<lparr>url = url proposed, state = state proposed,
           sameDocument = sameDocument proposed, id' = i, key = k\<rparr>, s2))"

text \<open>
  \<^verbatim>\<open>makeOrUpdateDestination\<close>. \<open>None\<close> is the \<^verbatim>\<open>TypeError\<close> thrown by
  \<^verbatim>\<open>current.url\<close> when the current entry is \<^verbatim>\<open>undefined\<close>.
\<close>

definition makeOrUpdateDestination ::
  "'w Env \<Rightarrow> NavigationState \<Rightarrow> URL \<Rightarrow> JsValue \<Rightarrow> string \<Rightarrow> 'w Sys
     \<Rightarrow> (Destination \<times> 'w Sys) option" where
  "makeOrUpdateDestination env navigationState u st orig s =
     (case entryAt (entries navigationState) (index navigationState) of
        None \<Rightarrow> None
      | Some current \<Rightarrow>
          (let isSameOriginAndPath =
                 (origin u = origin (url current) \<and> pathname u = pathname (url current))
           in if isSameOriginAndPath then
                (let (i, s1) = makeUuid env s
                 in Some (\<lparr>url = u, state = getOriginalState st,
                           sameDocument = (origin u = orig), id' = i, key = key current\<rparr>,
                          s1))
              else Some (makeDestination env u st orig s)))"

definition makeRedirectEvent ::
  "'w Env \<Rightarrow> string \<Rightarrow> PathOrUrl \<Rightarrow> JsValue \<Rightarrow> JsValue \<Rightarrow> Destination \<Rightarrow> 'w Sys
     \<Rightarrow> TransitionEvent \<times> 'w Sys" where
  "makeRedirectEvent env orig path rstate rinfo from s =
     (let u = getUrl env orig path;
          (to, s1) = makeDestination env u rstate orig s
      in (\<lparr>type' = Replace, from' = from, delta = 0, to' = Dest to, info = rinfo\<rparr>, s1))"

section \<open>Handler fan-out\<close>

text \<open>
  \<^verbatim>\<open>runBeforeHandlers\<close>: the first loop polls the handlers and collects the
  deferred effects in \<open>matches\<close>; the second loop runs the collected effects. Either
  loop returns at the first failure.
\<close>

fun pollBeforeHandlers ::
  "'w BeforeNavigationHandler list \<Rightarrow> TransitionEvent \<Rightarrow> 'w Deferred list \<Rightarrow> 'w
     \<Rightarrow> (BeforeError + 'w Deferred list) \<times> 'w" where
  "pollBeforeHandlers [] event matches w = (Inr matches, w)"
| "pollBeforeHandlers (handler # rest) event matches w =
     (case handler event w of
        (Inr match, w1) \<Rightarrow>
          pollBeforeHandlers rest event
            (case match of Some m \<Rightarrow> matches @ [m] | None \<Rightarrow> matches) w1
      | (Inl e, w1) \<Rightarrow> (Inl e, w1))"

fun runMatches :: "'w Deferred list \<Rightarrow> 'w \<Rightarrow> BeforeError option \<times> 'w" where
  "runMatches [] w = (None, w)"
| "runMatches (match # rest) w =
     (case match w of
        (Some e, w1) \<Rightarrow> (Some e, w1)
      | (None, w1) \<Rightarrow> runMatches rest w1)"

definition runBeforeHandlers ::
  "'w BeforeNavigationHandler list \<Rightarrow> TransitionEvent \<Rightarrow> 'w \<Rightarrow> BeforeError option \<times> 'w" where
  "runBeforeHandlers hs event w =
     (case pollBeforeHandlers hs event [] w of
        (Inl e, w1) \<Rightarrow> (Some e, w1)
      | (Inr matches, w1) \<Rightarrow> runMatches matches w1)"

text \<open>
  \<^verbatim>\<open>runHandlers\<close>: the after-handlers are polled in order; the collected effects
  are run by \<^verbatim>\<open>Effect.all\<close> without a concurrency option, one after the other,
  and their results are discarded.
\<close>

fun pollHandlers ::
  "'w NavigationHandler list \<Rightarrow> NavigationEvent \<Rightarrow> ('w \<Rightarrow> 'w) list \<Rightarrow> 'w
     \<Rightarrow> ('w \<Rightarrow> 'w) list \<times> 'w" where
  "pollHandlers [] event matches w = (matches, w)"
| "pollHandlers (handler # rest) event matches w =
     (case handler event w of
        (Some m, w1) \<Rightarrow> pollHandlers rest event (matches @ [m]) w1
      | (None, w1) \<Rightarrow> pollHandlers rest event matches w1)"

definition runHandlers :: "'w NavigationHandler list \<Rightarrow> NavigationEvent \<Rightarrow> 'w \<Rightarrow> 'w" where
  "runHandlers hs event w =
     (case pollHandlers hs event [] w of (matches, w1) \<Rightarrow> fold (\<lambda>m. m) matches w1)"

section \<open>The transition engine\<close>

text \<open>
  The state written by the Mutate phase of \<^verbatim>\<open>runNavigationEvent\<close>, one branch
  per event type, before the cell's transform is applied.
\<close>

definition mutate :: "TransitionEvent \<Rightarrow> Destination \<Rightarrow> NavigationState \<Rightarrow> NavigationState" where
  "mutate beforeEvent to current =
     (if type' beforeEvent = Push then
        (let i = index current + 1;
             es = slice (entries current) 0 i @ [to]
         in \<lparr>entries = es, index = i, transition = None\<rparr>)
      else if type' beforeEvent = Replace then
        (let i = index current;
             before = slice (entries current) 0 i;
             after = sliceFrom (entries current) (i + 1)
         in \<lparr>entries = before @ [to] @ after, index = i, transition = None\<rparr>)
      else if type' beforeEvent = Reload then
        current\<lparr>transition := None\<rparr>
      else
        current\<lparr>index := index current + delta beforeEvent, transition := None\<rparr>)"

text \<open>
  The part of \<^verbatim>\<open>runNavigationEvent\<close> after the before-handlers: upgrade a proposed
  destination, commit unless \<open>skipCommit\<close>, then either adopt the adapter's
  \<open>newNavigationState\<close> or mutate the cell and run the after-handlers.
\<close>

definition commitAndMutate ::
  "'w Env \<Rightarrow> TransitionEvent \<Rightarrow> NavigationState \<Rightarrow> bool \<Rightarrow> 'w Sys
     \<Rightarrow> Destination Exit \<times> 'w Sys" where
  "commitAndMutate env beforeEvent current skipCommit s =
     (let (to, s1) =
            (case to' beforeEvent of
               Dest d \<Rightarrow> (d, s)
             | Proposed p \<Rightarrow> upgradeProposedDestination env p s);
          (failure, s2) =
            (if \<not> skipCommit then
               (case commit env to beforeEvent (world s1) of (r, w) \<Rightarrow> (r, s1\<lparr>world := w\<rparr>))
             else (None, s1))
      in case failure of
           Some cause \<Rightarrow> (Failure cause, s2)
         | None \<Rightarrow>
             (case newNavigationState env of
                Some f \<Rightarrow>
                  (let (st, s3) = cellSet env (f (world s2)) s2
                   in case entryAt (entries st) (index st) of
                        Some d \<Rightarrow> (Success d, s3)
                      | None \<Rightarrow> (UndefinedEntry, s3))
              | None \<Rightarrow>
                  (let event = \<lparr>nav_type = type' beforeEvent, destination = to,
                                nav_info = info beforeEvent\<rparr>;
                       (written, s3) = cellSet env (mutate beforeEvent to current) s2
                   in (Success to,
                       s3\<lparr>world := runHandlers (handlers env) event (world s3)\<rparr>))))"

text \<open>
  \<^verbatim>\<open>runNavigationEvent\<close> and \<^verbatim>\<open>handleError\<close>, mutually recursive through the
  redirect branch. The redirect event is run with \<open>skipCommit\<close> at its default,
  \<open>False\<close>. In \<open>handleError\<close> the depth guard comes first, before the kind of
  error is looked at; a current entry that is \<^verbatim>\<open>undefined\<close> ends the model's run
  with \<open>UndefinedEntry\<close>.
\<close>

function runNavigationEvent ::
    "'w Env \<Rightarrow> TransitionEvent \<Rightarrow> 'w Sys \<Rightarrow> nat \<Rightarrow> bool \<Rightarrow> Destination Exit \<times> 'w Sys"
  and handleError ::
    "'w Env \<Rightarrow> BeforeError \<Rightarrow> 'w Sys \<Rightarrow> nat \<Rightarrow> Destination Exit \<times> 'w Sys" where
  "runNavigationEvent env beforeEvent s depth skipCommit =
     (let (current, s1) = cellSet env ((cellGet env s)\<lparr>transition := Some beforeEvent\<rparr>) s
      in if skipCommit then commitAndMutate env beforeEvent current skipCommit s1
         else
           (case runBeforeHandlers (beforeHandlers env) beforeEvent (world s1) of
              (Some e, w) \<Rightarrow> handleError env e (s1\<lparr>world := w\<rparr>) depth
            | (None, w) \<Rightarrow>
                commitAndMutate env beforeEvent current skipCommit (s1\<lparr>world := w\<rparr>)))"
| "handleError env error s depth =
     (if depth \<ge> 25 then (Die ''Redirect loop detected.'', s)
      else
        (let st = cellGet env s
         in case entryAt (entries st) (index st) of
              None \<Rightarrow> (UndefinedEntry, s)
            | Some from \<Rightarrow>
                (case error of
                   CancelNavigation \<Rightarrow>
                     (let (written, s1) =
                            cellSet env
                              \<lparr>entries = entries st, index = index st, transition = None\<rparr> s
                      in (Success from, s1))
                 | RedirectError path rstate rinfo \<Rightarrow>
                     (let (event, s1) =
                            makeRedirectEvent env (env_origin env) path rstate rinfo from s
                      in runNavigationEvent env event s1 (depth + 1) False))))"
  by pat_completeness auto
termination
  by (relation "measure (\<lambda>x. case x of
                    Inl (env, ev, s, d, skip) \<Rightarrow> 2 * (25 - d) + 1
                  | Inr (env, e, s, d) \<Rightarrow> 2 * (25 - d))")
     auto

declare runNavigationEvent.simps [simp del] handleError.simps [simp del]

text \<open>
  The way from one transition into the next through the redirect branch, taken out of
  the two functions above: for a transition \<open>(event, state)\<close> whose Before phase fails
  with a redirect, \<open>redirectStep\<close> is the redirect event and the state with which
  \<open>handleError\<close> calls \<open>runNavigationEvent\<close> again; it is \<open>None\<close> when the Before
  phase does not end in a redirect (or the current entry is \<^verbatim>\<open>undefined\<close>).
  \<open>redirectChain env n\<close> follows \<open>n\<close> redirects in a row.
\<close>

definition redirectStep ::
  "'w Env \<Rightarrow> TransitionEvent \<times> 'w Sys \<Rightarrow> (TransitionEvent \<times> 'w Sys) option" where
  "redirectStep env x =
     (case x of (beforeEvent, s) \<Rightarrow>
        (let (current, s1) =
               cellSet env ((cellGet env s)\<lparr>transition := Some beforeEvent\<rparr>) s
         in case runBeforeHandlers (beforeHandlers env) beforeEvent (world s1) of
              (Some (RedirectError path rstate rinfo), w) \<Rightarrow>
                (let st = cellGet env (s1\<lparr>world := w\<rparr>)
                 in case entryAt (entries st) (index st) of
                      None \<Rightarrow> None
                    | Some from \<Rightarrow>
                        Some (makeRedirectEvent env (env_origin env) path rstate rinfo from
                                (s1\<lparr>world := w\<rparr>)))
            | (Some CancelNavigation, w) \<Rightarrow> None
            | (None, w) \<Rightarrow> None))"

fun redirectChain ::
  "'w Env \<Rightarrow> nat \<Rightarrow> TransitionEvent \<times> 'w Sys \<Rightarrow> (TransitionEvent \<times> 'w Sys) option" where
  "redirectChain env 0 x = Some x"
| "redirectChain env (Suc n) x =
     (case redirectStep env x of
        None \<Rightarrow> None
      | Some y \<Rightarrow> redirectChain env n y)"

section \<open>Operations\<close>

text \<open>
  The event assembled by \<^verbatim>\<open>navigate\<close>. \<open>None\<close> is the \<^verbatim>\<open>TypeError\<close> of
  \<^verbatim>\<open>makeOrUpdateDestination\<close> on an undefined current entry.
\<close>

definition navigateEvent ::
  "'w Env \<Rightarrow> PathOrUrl \<Rightarrow> NavigateOptions \<Rightarrow> 'w Sys \<Rightarrow> (TransitionEvent \<times> 'w Sys) option" where
  "navigateEvent env pathOrUrl options s =
     (let st = cellGet env s
      in case entryAt (entries st) (index st) of
           None \<Rightarrow> None
         | Some from \<Rightarrow>
             (case makeOrUpdateDestination env st (getUrl env (env_origin env) pathOrUrl)
                     (opt_state options) (env_origin env) s of
                None \<Rightarrow> None
              | Some (to, s1) \<Rightarrow>
                  (let hist = (case history options of None \<Rightarrow> HAuto | Some h \<Rightarrow> h);
                       ty = (case hist of
                               HAuto \<Rightarrow> (if key from = key to then Replace else Push)
                             | HPush \<Rightarrow> Push
                             | HReplace \<Rightarrow> Replace)
                   in Some (\<lparr>type' = ty, from' = from,
                             delta = (if ty = Replace then 0 else 1),
                             to' = Dest to, info = opt_info options\<rparr>, s1))))"

definition navigate ::
  "'w Env \<Rightarrow> PathOrUrl \<Rightarrow> NavigateOptions \<Rightarrow> bool \<Rightarrow> 'w Sys \<Rightarrow> Destination Exit \<times> 'w Sys" where
  "navigate env pathOrUrl options skipCommit s =
     (case navigateEvent env pathOrUrl options s of
        None \<Rightarrow> (Die ''TypeError'', s)
      | Some (event, s1) \<Rightarrow> runNavigationEvent env event s1 0 skipCommit)"

text \<open>The event assembled by \<^verbatim>\<open>traverseTo\<close> once the key is found at \<open>nextIndex\<close>.\<close>

definition traverseEvent ::
  "'w Env \<Rightarrow> NavigationState \<Rightarrow> Destination \<Rightarrow> int \<Rightarrow> JsValue \<Rightarrow> 'w Sys
     \<Rightarrow> TransitionEvent \<times> 'w Sys" where
  "traverseEvent env st from nextIndex tinfo s =
     (let (i, s1) = makeUuid env s;
          to = (entries st ! nat nextIndex)\<lparr>id' := i\<rparr>
      in (\<lparr>type' = Traverse, from' = from, delta = nextIndex - index st,
           to' = Dest to, info = tinfo\<rparr>, s1))"

definition traverseTo ::
  "'w Env \<Rightarrow> Uuid \<Rightarrow> JsValue \<Rightarrow> bool \<Rightarrow> 'w Sys \<Rightarrow> Destination Exit \<times> 'w Sys" where
  "traverseTo env k tinfo skipCommit s =
     (let st = cellGet env s;
          nextIndex = findIndex (\<lambda>e. key e = k) (entries st)
      in case entryAt (entries st) (index st) of
           None \<Rightarrow> (UndefinedEntry, s)
         | Some from \<Rightarrow>
             if nextIndex = -1 then (Success from, s)
             else
               (let (event, s1) = traverseEvent env st from nextIndex tinfo s
                in runNavigationEvent env event s1 0 skipCommit))"

definition back' :: "'w Env \<Rightarrow> JsValue \<Rightarrow> bool \<Rightarrow> 'w Sys \<Rightarrow> Destination Exit \<times> 'w Sys" where
  "back' env binfo skipCommit s =
     (let st = cellGet env s
      in if index st = 0 then
           (case entryAt (entries st) (index st) of
              Some e \<Rightarrow> (Success e, s)
            | None \<Rightarrow> (UndefinedEntry, s))
         else
           (case entryAt (entries st) (index st - 1) of
              None \<Rightarrow> (Die ''TypeError'', s)
            | Some e \<Rightarrow> traverseTo env (key e) binfo skipCommit s))"

definition forward :: "'w Env \<Rightarrow> JsValue \<Rightarrow> bool \<Rightarrow> 'w Sys \<Rightarrow> Destination Exit \<times> 'w Sys" where
  "forward env finfo skipCommit s =
     (let st = cellGet env s
      in if index st = int (length (entries st)) - 1 then
           (case entryAt (entries st) (index st) of
              Some e \<Rightarrow> (Success e, s)
            | None \<Rightarrow> (UndefinedEntry, s))
         else
           (case entryAt (entries st) (index st + 1) of
              None \<Rightarrow> (Die ''TypeError'', s)
            | Some e \<Rightarrow> traverseTo env (key e) finfo skipCommit s))"

definition reloadEvent :: "Destination \<Rightarrow> JsValue \<Rightarrow> TransitionEvent" where
  "reloadEvent current rinfo =
     \<lparr>type' = Reload, from' = current, delta = 0, to' = Dest current, info = rinfo\<rparr>"

definition reload :: "'w Env \<Rightarrow> JsValue \<Rightarrow> bool \<Rightarrow> 'w Sys \<Rightarrow> Destination Exit \<times> 'w Sys" where
  "reload env rinfo skipCommit s =
     (let st = cellGet env s
      in case entryAt (entries st) (index st) of
           None \<Rightarrow> (UndefinedEntry, s)
         | Some current \<Rightarrow>
             runNavigationEvent env (reloadEvent current rinfo) s 0 skipCommit)"

definition updateCurrentEntryEvent :: "Destination \<Rightarrow> JsValue \<Rightarrow> TransitionEvent" where
  "updateCurrentEntryEvent current st =
     \<lparr>type' = Replace, from' = current, delta = 0,
      to' = Dest (current\<lparr>state := st\<rparr>), info = Null\<rparr>"

definition updateCurrentEntry ::
  "'w Env \<Rightarrow> JsValue \<Rightarrow> 'w Sys \<Rightarrow> Destination Exit \<times> 'w Sys" where
  "updateCurrentEntry env st s =
     (let ns = cellGet env s
      in case entryAt (entries ns) (index ns) of
           None \<Rightarrow> (UndefinedEntry, s)
         | Some current \<Rightarrow>
             runNavigationEvent env (updateCurrentEntryEvent current st) s 0 False)"

section \<open>Memory adapter set-up\<close>

text \<open>
  The options of \<^verbatim>\<open>memory\<close> that decide the cell: \<^verbatim>\<open>setupMemory\<close> stores the
  entries with index \<^verbatim>\<open>currentIndex ?? entries.length - 1\<close> and wraps the cell in the
  clamp for \<^verbatim>\<open>maxEntries ?? 50\<close>.
\<close>

record MemoryOptions =
  mem_entries :: "Destination list"
  mem_currentIndex :: "int option"
  mem_maxEntries :: "int option"

definition setupMemoryState :: "MemoryOptions \<Rightarrow> NavigationState" where
  "setupMemoryState options =
     \<lparr>entries = mem_entries options,
      index = (case mem_currentIndex options of
                 Some i \<Rightarrow> i
               | None \<Rightarrow> int (length (mem_entries options)) - 1),
      transition = None\<rparr>"

definition setupMemoryMaxEntries :: "MemoryOptions \<Rightarrow> int" where
  "setupMemoryMaxEntries options =
     (case mem_maxEntries options of Some n \<Rightarrow> n | None \<Rightarrow> 50)"

text \<open>
  An environment of the memory adapter set up from \<open>options\<close>: the cell is clamped to
  \<^verbatim>\<open>maxEntries ?? 50\<close> and there is no \<open>newNavigationState\<close>. Handlers come and go
  between operations, so the handler sets (like the commit and the random source) may
  differ from one operation to the next.
\<close>

definition memoryEnv :: "MemoryOptions \<Rightarrow> 'w Env \<Rightarrow> bool" where
  "memoryEnv options env =
     (maxEntries env = Some (setupMemoryMaxEntries options) \<and> newNavigationState env = None)"

text \<open>
  The states of a memory navigation set up from \<open>options\<close>: the state after set-up, and
  the state after each of the six operations run from such a state.
\<close>

inductive reachable :: "MemoryOptions \<Rightarrow> 'w Sys \<Rightarrow> bool" for options :: MemoryOptions where
  initial: "cell s = setupMemoryState options \<Longrightarrow> reachable options s"
| after_navigate:
    "reachable options s \<Longrightarrow> memoryEnv options env \<Longrightarrow>
     reachable options (snd (navigate env pathOrUrl opts skipCommit s))"
| after_back:
    "reachable options s \<Longrightarrow> memoryEnv options env \<Longrightarrow>
     reachable options (snd (back' env binfo skipCommit s))"
| after_forward:
    "reachable options s \<Longrightarrow> memoryEnv options env \<Longrightarrow>
     reachable options (snd (forward env finfo skipCommit s))"
| after_traverseTo:
    "reachable options s \<Longrightarrow> memoryEnv options env \<Longrightarrow>
     reachable options (snd (traverseTo env k tinfo skipCommit s))"
| after_reload:
    "reachable options s \<Longrightarrow> memoryEnv options env \<Longrightarrow>
     reachable options (snd (reload env rinfo skipCommit s))"
| after_updateCurrentEntry:
    "reachable options s \<Longrightarrow> memoryEnv options env \<Longrightarrow>
     reachable options (snd (updateCurrentEntry env st s))"

section \<open>Example configurations\<close>

text \<open>
  A memory navigation at \<^verbatim>\<open>https://example.com/foo/1\<close> with \<open>maxEntries = 3\<close>, a
  commit that does nothing, and a random source that yields \<open>100, 101, \<dots>\<close>.
\<close>

definition exampleUrl :: "string \<Rightarrow> URL" where
  "exampleUrl p =
     \<lparr>origin = ''https://example.com'', pathname = p, search = '''', hash = ''''\<rparr>"

definition exampleNewURL :: "string \<Rightarrow> string \<Rightarrow> URL" where
  "exampleNewURL p base = \<lparr>origin = base, pathname = p, search = '''', hash = ''''\<rparr>"

definition exampleEntry :: Destination where
  "exampleEntry =
     \<lparr>url = exampleUrl ''/foo/1'', state = Opaque 0, sameDocument = True, id' = 1, key = 2\<rparr>"

definition exampleEnv ::
  "'w BeforeNavigationHandler list \<Rightarrow> 'w NavigationHandler list \<Rightarrow> 'w Env" where
  "exampleEnv bs hs =
     \<lparr>env_origin = ''https://example.com'', maxEntries = Some 3, beforeHandlers = bs,
      handlers = hs, commit = (\<lambda>to ev w. (None, w)), newNavigationState = None,
      getRandomValues = (\<lambda>n. 100 + n), newURL = exampleNewURL\<rparr>"

definition exampleSys :: "'w \<Rightarrow> 'w Sys" where
  "exampleSys w =
     \<lparr>cell = \<lparr>entries = [exampleEntry], index = 0, transition = None\<rparr>,
      writes = [], drawn = 0, world = w\<rparr>"

definition noOptions :: NavigateOptions where
  "noOptions = \<lparr>history = None, opt_state = Undefined, opt_info = Undefined\<rparr>"

text \<open>
  Handlers that log into the world. The world is a list of \<open>Trace\<close> entries; a
  before-handler logs its position and the path of the event's target when it is
  polled, a deferred effect logs its position when it runs.
\<close>

datatype Trace =
    BeforePolled nat string
  | DeferredRun nat
  | CommitCalled string
  | AfterPolled nat string
  | AfterRun nat

definition targetPath :: "Target \<Rightarrow> string" where
  "targetPath t = (case t of Dest d \<Rightarrow> pathname (url d) | Proposed p \<Rightarrow> pathname (url p))"

text \<open>
  What a scripted before-handler answers when polled: a synchronous failure, no
  deferred effect, or a deferred effect with its own outcome.
\<close>

datatype Script = SyncFail BeforeError | Abstain | Defer "BeforeError option"

definition scriptedDeferred :: "nat \<Rightarrow> BeforeError option \<Rightarrow> Trace list Deferred" where
  "scriptedDeferred i r = (\<lambda>w. (r, w @ [DeferredRun i]))"

definition scriptedHandler :: "nat \<Rightarrow> Script \<Rightarrow> Trace list BeforeNavigationHandler" where
  "scriptedHandler i sc =
     (\<lambda>event w.
        (case sc of
           SyncFail e \<Rightarrow> Inl e
         | Abstain \<Rightarrow> Inr None
         | Defer r \<Rightarrow> Inr (Some (scriptedDeferred i r)),
         w @ [BeforePolled i (targetPath (to' event))]))"

fun scriptedHandlersFrom :: "nat \<Rightarrow> Script list \<Rightarrow> Trace list BeforeNavigationHandler list" where
  "scriptedHandlersFrom i [] = []"
| "scriptedHandlersFrom i (sc # scs) = scriptedHandler i sc # scriptedHandlersFrom (Suc i) scs"

definition scriptedHandlers :: "Script list \<Rightarrow> Trace list BeforeNavigationHandler list" where
  "scriptedHandlers scs = scriptedHandlersFrom 0 scs"

text \<open>The positions and outcomes of the deferred effects a script list returns, in order.\<close>

fun deferredOf :: "nat \<Rightarrow> Script list \<Rightarrow> (nat \<times> BeforeError option) list" where
  "deferredOf i [] = []"
| "deferredOf i (Defer r # scs) = (i, r) # deferredOf (Suc i) scs"
| "deferredOf i (sc # scs) = deferredOf (Suc i) scs"

fun isSyncFail :: "Script \<Rightarrow> bool" where
  "isSyncFail (SyncFail e) = True"
| "isSyncFail sc = False"

text \<open>
  A before-handler that redirects every event whose target path is \<open>a\<close> to the path
  \<open>b\<close>, an after-handler that logs the committed path, and a commit that logs the
  path it is given.
\<close>

definition redirectingHandler :: "string \<Rightarrow> string \<Rightarrow> Trace list BeforeNavigationHandler" where
  "redirectingHandler a b =
     (\<lambda>event w.
        (if targetPath (to' event) = a
         then Inl (RedirectError (PathString b) Undefined Undefined)
         else Inr None,
         w @ [BeforePolled 0 (targetPath (to' event))]))"

definition recordingHandler :: "nat \<Rightarrow> Trace list NavigationHandler" where
  "recordingHandler i =
     (\<lambda>event w. (None, w @ [AfterPolled i (pathname (url (destination event)))]))"

definition recordingCommit :: "Trace list Commit" where
  "recordingCommit = (\<lambda>to event w. (None, w @ [CommitCalled (pathname (url to))]))"

text \<open>
  A before-handler that fails with a redirect to \<open>/next\<close> as long as fewer than \<open>k\<close>
  entries are logged, and answers \<open>final\<close> from then on; it logs every poll.
\<close>

definition redirectTimes ::
  "nat \<Rightarrow> (BeforeError + Trace list Deferred option) \<Rightarrow> Trace list BeforeNavigationHandler" where
  "redirectTimes k final =
     (\<lambda>event w.
        (if length w < k
         then Inl (RedirectError (PathString ''/next'') Undefined Undefined)
         else final,
         w @ [BeforePolled 0 (targetPath (to' event))]))"


text \<open>
  More fixtures: a destination of the example origin with no state, an event to a
  destination with no info, an environment whose only before-handler cancels every
  navigation and whose commit and after-handler log, and a state of two entries.
\<close>

definition exampleDestination :: "string \<Rightarrow> Uuid \<Rightarrow> Uuid \<Rightarrow> Destination" where
  "exampleDestination p i k =
     \<lparr>url = exampleUrl p, state = Undefined, sameDocument = True, id' = i, key = k\<rparr>"

definition exampleEvent ::
  "NavigationType \<Rightarrow> Destination \<Rightarrow> int \<Rightarrow> Destination \<Rightarrow> TransitionEvent" where
  "exampleEvent ty from d to =
     \<lparr>type' = ty, from' = from, delta = d, to' = Dest to, info = Undefined\<rparr>"


section \<open>Properties of the clamp\<close>

lemma sliceFrom_neg:
  "1 \<le> N \<Longrightarrow> sliceFrom xs (- N) = drop (length xs - nat N) xs"
  by (auto simp: sliceFrom_def relativeIndex_def intro!: arg_cong2 [where f = drop])

lemma length_sliceFrom_neg:
  "1 \<le> N \<Longrightarrow> length (sliceFrom xs (- N)) = min (length xs) (nat N)"
  by (auto simp: sliceFrom_neg)

lemma sliceFrom_neg_idem:
  "1 \<le> N \<Longrightarrow> sliceFrom (sliceFrom xs (- N)) (- N) = sliceFrom xs (- N)"
  by (simp add: sliceFrom_neg)

text \<open>
  Claim C8. For every navigation state and every bound \<open>N \<ge> 1\<close>, clamping twice is the
  same as clamping once, and the clamp leaves the in-flight \<open>transition\<close> as it is.
\<close>

theorem clampNavigationState_idempotent:
  assumes "1 \<le> N"
  shows "clampNavigationState N (clampNavigationState N s) = clampNavigationState N s
         \<and> transition (clampNavigationState N s) = transition s"
  using assms by (simp add: clampNavigationState_def Let_def sliceFrom_neg_idem)

theorem clampNavigationState_idempotent_witness:
  "(1::int) \<le> 2
   \<and> clampNavigationState 2 (clampNavigationState 2
        \<lparr>entries = [\<lparr>url = \<lparr>origin = ''o'', pathname = ''/a'', search = '''', hash = ''''\<rparr>,
                      state = Undefined, sameDocument = True, id' = 1, key = 2\<rparr>,
                    \<lparr>url = \<lparr>origin = ''o'', pathname = ''/b'', search = '''', hash = ''''\<rparr>,
                      state = Undefined, sameDocument = True, id' = 3, key = 4\<rparr>,
                    \<lparr>url = \<lparr>origin = ''o'', pathname = ''/c'', search = '''', hash = ''''\<rparr>,
                      state = Undefined, sameDocument = True, id' = 5, key = 6\<rparr>],
          index = 7, transition = None\<rparr>)
     = \<lparr>entries = [\<lparr>url = \<lparr>origin = ''o'', pathname = ''/b'', search = '''', hash = ''''\<rparr>,
                      state = Undefined, sameDocument = True, id' = 3, key = 4\<rparr>,
                    \<lparr>url = \<lparr>origin = ''o'', pathname = ''/c'', search = '''', hash = ''''\<rparr>,
                      state = Undefined, sameDocument = True, id' = 5, key = 6\<rparr>],
          index = 1, transition = None\<rparr>"
proof -
  have h: "(1::int) \<le> 2" by simp
  show ?thesis
    using h clampNavigationState_idempotent [OF h]
    by (simp add: clampNavigationState_def sliceFrom_def relativeIndex_def)
qed

section \<open>Properties of the state cell\<close>

lemmas example_defs = exampleUrl_def exampleNewURL_def exampleEntry_def exampleEnv_def
  exampleSys_def noOptions_def

lemmas cell_defs = cellGet_def cellSet_def cellTransform_def clampNavigationState_def
  sliceFrom_def slice_def relativeIndex_def entryAt_def

lemmas case_congs = option.case_cong prod.case_cong JsValue.case_cong PathOrUrl.case_cong
  Target.case_cong if_cong

lemma cell_cellWrite [simp]: "cell (cellWrite a s) = a"
  by (simp add: cellWrite_def)

lemma writes_cellWrite [simp]: "writes (cellWrite a s) = writes s @ [a]"
  by (simp add: cellWrite_def)

lemma world_cellWrite [simp]: "world (cellWrite a s) = world s"
  by (simp add: cellWrite_def)

lemma drawn_cellWrite [simp]: "drawn (cellWrite a s) = drawn s"
  by (simp add: cellWrite_def)

lemma cellWrite_world_update [simp]:
  "cellWrite a (s\<lparr>world := w\<rparr>) = (cellWrite a s)\<lparr>world := w\<rparr>"
  by (simp add: cellWrite_def)

lemma cellWrite_drawn_update [simp]:
  "cellWrite a (s\<lparr>drawn := n\<rparr>) = (cellWrite a s)\<lparr>drawn := n\<rparr>"
  by (simp add: cellWrite_def)

lemma cellWrite_world_same [simp]: "(cellWrite a s)\<lparr>world := world s\<rparr> = cellWrite a s"
  by (simp add: cellWrite_def)

lemma cellTransform_idem:
  "wellConfigured env \<Longrightarrow> cellTransform env (cellTransform env a) = cellTransform env a"
  by (auto simp: wellConfigured_def cellTransform_def clampNavigationState_def Let_def
        sliceFrom_neg_idem split: option.splits)

lemma cellTransform_transition:
  "cellTransform env (a\<lparr>transition := t\<rparr>) = (cellTransform env a)\<lparr>transition := t\<rparr>"
  by (auto simp: cellTransform_def clampNavigationState_def Let_def split: option.splits)

lemma cellGet_cellSet:
  "wellConfigured env \<Longrightarrow> cellGet env (snd (cellSet env a s)) = cellTransform env a"
  by (simp add: cellGet_def cellSet_def cellTransform_idem)

lemma cellSet_transition:
  "wellConfigured env \<Longrightarrow>
   cellSet env ((cellGet env s)\<lparr>transition := t\<rparr>) s
     = ((cellGet env s)\<lparr>transition := t\<rparr>, cellWrite ((cellGet env s)\<lparr>transition := t\<rparr>) s)"
  by (simp add: cellSet_def cellGet_def cellTransform_transition cellTransform_idem)

section \<open>Events built by the operations\<close>

text \<open>
  Claim C9, as stated, fails: a \<open>navigate\<close> that resolves to \<open>push\<close> builds its event
  with \<open>delta = 1\<close>. Here the navigation from \<open>/foo/1\<close> to \<open>/foo/2\<close>.
\<close>

theorem navigate_push_delta_counterexample:
  "navigateEvent (exampleEnv [] []) (PathString ''/foo/2'') noOptions (exampleSys ()) \<noteq> None
   \<and> type' (fst (the (navigateEvent (exampleEnv [] []) (PathString ''/foo/2'') noOptions
                        (exampleSys ())))) = Push
   \<and> delta (fst (the (navigateEvent (exampleEnv [] []) (PathString ''/foo/2'') noOptions
                        (exampleSys ())))) = 1"
  by (simp add: navigateEvent_def makeOrUpdateDestination_def makeDestination_def makeUuid_def
        getUrl_def example_defs cell_defs Let_def)

text \<open>
  Claim C9, amended. Every event that \<open>navigate\<close> builds is a \<open>push\<close> with
  \<open>delta = 1\<close> or a \<open>replace\<close> with \<open>delta = 0\<close>; the events of \<open>reload\<close>, of
  \<open>updateCurrentEntry\<close> and of a redirect have \<open>delta = 0\<close>; a \<open>traverse\<close> event
  carries the signed distance from the current index to the target index.
\<close>

theorem event_delta:
  "(navigateEvent env p opts s = Some (ev, s1) \<longrightarrow>
      (type' ev = Push \<and> delta ev = 1) \<or> (type' ev = Replace \<and> delta ev = 0))
   \<and> type' (reloadEvent c i) = Reload \<and> delta (reloadEvent c i) = 0
   \<and> type' (updateCurrentEntryEvent c st) = Replace \<and> delta (updateCurrentEntryEvent c st) = 0
   \<and> type' (fst (makeRedirectEvent env orig path rs ri from s)) = Replace
   \<and> delta (fst (makeRedirectEvent env orig path rs ri from s)) = 0
   \<and> type' (fst (traverseEvent env ns from n ti s)) = Traverse
   \<and> delta (fst (traverseEvent env ns from n ti s)) = n - index ns"
proof -
  have nav: "navigateEvent env p opts s = Some (ev, s1) \<longrightarrow>
      (type' ev = Push \<and> delta ev = 1) \<or> (type' ev = Replace \<and> delta ev = 0)"
    by (auto simp: navigateEvent_def Let_def
          split: option.splits History.splits if_splits prod.splits)
  have red: "type' (fst (makeRedirectEvent env orig path rs ri from s)) = Replace
     \<and> delta (fst (makeRedirectEvent env orig path rs ri from s)) = 0"
    by (simp add: makeRedirectEvent_def Let_def split: prod.splits)
  have trav: "type' (fst (traverseEvent env ns from n ti s)) = Traverse
     \<and> delta (fst (traverseEvent env ns from n ti s)) = n - index ns"
    by (simp add: traverseEvent_def Let_def split: prod.splits)
  show ?thesis
    using nav red trav by (simp add: reloadEvent_def updateCurrentEntryEvent_def)
qed

theorem event_delta_witness:
  "navigateEvent (exampleEnv [] []) (UrlObject (exampleUrl ''/foo/1'')) noOptions (exampleSys ())
     = Some (\<lparr>type' = Replace, from' = exampleEntry, delta = 0,
               to' = Dest \<lparr>url = exampleUrl ''/foo/1'', state = Undefined,
                            sameDocument = True, id' = 100, key = 2\<rparr>,
               info = Undefined\<rparr>,
             (exampleSys ())\<lparr>drawn := 1\<rparr>)
   \<and> delta \<lparr>type' = Replace, from' = exampleEntry, delta = 0,
               to' = Dest \<lparr>url = exampleUrl ''/foo/1'', state = Undefined,
                            sameDocument = True, id' = 100, key = 2\<rparr>,
               info = Undefined\<rparr> = 0"
proof -
  have h: "navigateEvent (exampleEnv [] []) (UrlObject (exampleUrl ''/foo/1'')) noOptions
             (exampleSys ())
     = Some (\<lparr>type' = Replace, from' = exampleEntry, delta = 0,
               to' = Dest \<lparr>url = exampleUrl ''/foo/1'', state = Undefined,
                            sameDocument = True, id' = 100, key = 2\<rparr>,
               info = Undefined\<rparr>,
             (exampleSys ())\<lparr>drawn := 1\<rparr>)"
    by (simp add: navigateEvent_def makeOrUpdateDestination_def makeDestination_def
          makeUuid_def getUrl_def example_defs cell_defs Let_def)
  from event_delta [THEN conjunct1, rule_format, OF h] h
  show ?thesis by simp
qed

section \<open>Transitions that skip the commit\<close>


lemma cellTransform_env_update [simp]:
  "cellTransform (env\<lparr>beforeHandlers := bs, commit := c\<rparr>) = cellTransform env"
  by (rule ext) (simp add: cellTransform_def)

lemma cellGet_env_update [simp]:
  "cellGet (env\<lparr>beforeHandlers := bs, commit := c\<rparr>) = cellGet env"
  by (rule ext) (simp add: cellGet_def)

lemma cellSet_env_update [simp]:
  "cellSet (env\<lparr>beforeHandlers := bs, commit := c\<rparr>) = cellSet env"
  by (rule ext)+ (simp add: cellSet_def)

lemma makeUuid_env_update [simp]:
  "makeUuid (env\<lparr>beforeHandlers := bs, commit := c\<rparr>) = makeUuid env"
  by (rule ext)+ (simp add: makeUuid_def)

lemma upgradeProposedDestination_env_update [simp]:
  "upgradeProposedDestination (env\<lparr>beforeHandlers := bs, commit := c\<rparr>)
     = upgradeProposedDestination env"
  by (rule ext)+ (simp add: upgradeProposedDestination_def Let_def cong: case_congs)

lemma makeDestination_env_update [simp]:
  "makeDestination (env\<lparr>beforeHandlers := bs, commit := c\<rparr>) = makeDestination env"
  by (rule ext)+ (simp add: makeDestination_def Let_def cong: case_congs)

lemma getUrl_env_update [simp]:
  "getUrl (env\<lparr>beforeHandlers := bs, commit := c\<rparr>) = getUrl env"
  by (rule ext)+ (simp add: getUrl_def Let_def cong: case_congs)

lemma makeOrUpdateDestination_env_update [simp]:
  "makeOrUpdateDestination (env\<lparr>beforeHandlers := bs, commit := c\<rparr>)
     = makeOrUpdateDestination env"
  by (rule ext)+ (simp add: makeOrUpdateDestination_def Let_def cong: case_congs)



lemma navigateEvent_env_update [simp]:
  "navigateEvent (env\<lparr>beforeHandlers := bs, commit := c\<rparr>) = navigateEvent env"
  by (rule ext)+ (simp add: navigateEvent_def Let_def cong: case_congs)

lemma traverseEvent_env_update [simp]:
  "traverseEvent (env\<lparr>beforeHandlers := bs, commit := c\<rparr>) = traverseEvent env"
  by (rule ext)+ (simp add: traverseEvent_def Let_def cong: case_congs)






lemmas fixture_defs = scriptedHandler_def scriptedDeferred_def scriptedHandlers_def
  redirectingHandler_def recordingHandler_def recordingCommit_def redirectTimes_def targetPath_def



section \<open>The type of an automatic navigation\<close>

text \<open>
  Claim C7, as stated, fails when \<open>options.state\<close> carries the patched marker: for a
  target on another path \<open>makeDestination\<close> adopts the marker's id and key and
  mints nothing. With a marker key other than the current key the transition is a
  \<open>push\<close> whose id and key are the marker's (the random source is left untouched);
  with the current key in the marker the transition is a \<open>replace\<close> although the
  path differs.
\<close>

theorem navigate_patched_state_counterexample:
  "navigateEvent (exampleEnv [] []) (PathString ''/bar/42'')
      \<lparr>history = None, opt_state = PatchedState 7 8 (Opaque 1), opt_info = Undefined\<rparr>
      (exampleSys ())
   = Some (\<lparr>type' = Push, from' = exampleEntry, delta = 1,
            to' = Dest \<lparr>url = exampleUrl ''/bar/42'', state = Opaque 1, sameDocument = True,
                        id' = 7, key = 8\<rparr>,
            info = Undefined\<rparr>,
           exampleSys ())
   \<and> navigateEvent (exampleEnv [] []) (PathString ''/bar/42'')
      \<lparr>history = None, opt_state = PatchedState 7 2 (Opaque 1), opt_info = Undefined\<rparr>
      (exampleSys ())
   = Some (\<lparr>type' = Replace, from' = exampleEntry, delta = 0,
            to' = Dest \<lparr>url = exampleUrl ''/bar/42'', state = Opaque 1, sameDocument = True,
                        id' = 7, key = 2\<rparr>,
            info = Undefined\<rparr>,
           exampleSys ())"
  by code_simp

text \<open>
  Claim C7, amended. For \<open>navigate\<close> with \<open>history\<close> absent or \<open>auto\<close> on a defined
  current entry, the event has type \<open>replace\<close> exactly when the key of the candidate
  equals the key of the current entry, and \<open>push\<close> otherwise. When the target URL
  shares origin and pathname with the current URL, the current key is reused and one
  id is minted, so the type is \<open>replace\<close>. Otherwise the candidate comes from
  \<open>makeDestination\<close>: without the patched marker an id and a key are minted, in this
  order; with the marker its id and key are adopted and nothing is minted.
\<close>

theorem navigate_auto_type:
  assumes auto: "history opts = None \<or> history opts = Some HAuto"
      and cur: "entryAt (entries (cellGet env s)) (index (cellGet env s)) = Some current"
      and u: "u = getUrl env (env_origin env) p"
  shows "\<exists>ev s1 to.
           navigateEvent env p opts s = Some (ev, s1) \<and> to' ev = Dest to \<and> from' ev = current
           \<and> url to = u
           \<and> (type' ev = Replace \<longleftrightarrow> key to = key current)
           \<and> (type' ev = Push \<longleftrightarrow> key to \<noteq> key current)
           \<and> (origin u = origin (url current) \<and> pathname u = pathname (url current) \<longrightarrow>
                key to = key current \<and> id' to = getRandomValues env (drawn s)
                \<and> drawn s1 = Suc (drawn s) \<and> type' ev = Replace)
           \<and> (\<not> (origin u = origin (url current) \<and> pathname u = pathname (url current))
                \<and> \<not> isPatchedState (opt_state opts) \<longrightarrow>
                id' to = getRandomValues env (drawn s)
                \<and> key to = getRandomValues env (Suc (drawn s))
                \<and> drawn s1 = Suc (Suc (drawn s)))
           \<and> (\<not> (origin u = origin (url current) \<and> pathname u = pathname (url current))
                \<and> isPatchedState (opt_state opts) \<longrightarrow>
                (\<exists>v. opt_state opts = PatchedState (id' to) (key to) v) \<and> s1 = s)"
proof (cases "origin u = origin (url current) \<and> pathname u = pathname (url current)")
  case True
  then show ?thesis
    using auto cur u
    by (auto simp: navigateEvent_def makeOrUpdateDestination_def makeUuid_def Let_def
          split: prod.splits)
next
  case False
  show ?thesis
  proof (cases "isPatchedState (opt_state opts)")
    case True
    then obtain i k v where "opt_state opts = PatchedState i k v"
      by (cases "opt_state opts") auto
    then show ?thesis
      using False auto cur u
      by (auto simp: navigateEvent_def makeOrUpdateDestination_def makeDestination_def Let_def)
  next
    case np: False
    then show ?thesis
      using False auto cur u
      by (cases "opt_state opts")
         (auto simp: navigateEvent_def makeOrUpdateDestination_def makeDestination_def
            makeUuid_def Let_def split: prod.splits)
  qed
qed

theorem navigate_auto_type_witness:
  "(history noOptions = None \<or> history noOptions = Some HAuto)
   \<and> entryAt (entries (cellGet (exampleEnv [] []) (exampleSys ())))
        (index (cellGet (exampleEnv [] []) (exampleSys ()))) = Some exampleEntry
   \<and> (\<exists>ev s1 to.
         navigateEvent (exampleEnv [] []) (PathString ''/foo/2'') noOptions (exampleSys ())
           = Some (ev, s1)
         \<and> to' ev = Dest to \<and> type' ev = Push \<and> id' to = 100 \<and> key to = 101
         \<and> drawn s1 = 2)"
proof -
  let ?E = "exampleEnv [] [] :: unit Env"
  let ?u = "getUrl ?E (env_origin ?E) (PathString ''/foo/2'')"
  have a: "history noOptions = None \<or> history noOptions = Some HAuto"
    by (simp add: noOptions_def)
  have c: "entryAt (entries (cellGet ?E (exampleSys ())))
        (index (cellGet ?E (exampleSys ()))) = Some exampleEntry"
    by code_simp
  have d: "\<not> (origin ?u = origin (url exampleEntry)
            \<and> pathname ?u = pathname (url exampleEntry))"
    by code_simp
  have e: "\<not> isPatchedState (opt_state noOptions)"
    by (simp add: noOptions_def)
  from navigate_auto_type [OF a c refl, of "PathString ''/foo/2''"]
  obtain ev s1 to where
    n: "navigateEvent ?E (PathString ''/foo/2'') noOptions (exampleSys ()) = Some (ev, s1)"
    and t: "to' ev = Dest to"
    and p: "type' ev = Push \<longleftrightarrow> key to \<noteq> key exampleEntry"
    and m: "\<not> (origin ?u = origin (url exampleEntry)
                \<and> pathname ?u = pathname (url exampleEntry))
            \<and> \<not> isPatchedState (opt_state noOptions) \<longrightarrow>
            id' to = getRandomValues ?E (drawn (exampleSys ()))
            \<and> key to = getRandomValues ?E (Suc (drawn (exampleSys ())))
            \<and> drawn s1 = Suc (Suc (drawn (exampleSys ())))"
    by (elim exE conjE)
  from m d e have m': "id' to = 100 \<and> key to = 101 \<and> drawn s1 = 2"
    by (simp add: exampleEnv_def exampleSys_def)
  with p have q: "type' ev = Push"
    by (simp add: exampleEntry_def)
  have "\<exists>ev s1 to.
         navigateEvent ?E (PathString ''/foo/2'') noOptions (exampleSys ()) = Some (ev, s1)
         \<and> to' ev = Dest to \<and> type' ev = Push \<and> id' to = 100 \<and> key to = 101
         \<and> drawn s1 = 2"
    using n t q m' by (intro exI [of _ ev] exI [of _ s1] exI [of _ to]) simp
  with a c show ?thesis by (intro conjI)
qed


section \<open>The Mutate phase\<close>

lemma slice_0_take:
  "0 \<le> i \<Longrightarrow> slice xs 0 i = take (nat i) xs"
  by (simp add: slice_def relativeIndex_def Let_def min_def)

lemma sliceFrom_drop:
  "0 \<le> i \<Longrightarrow> sliceFrom xs i = drop (nat i) xs"
  by (simp add: sliceFrom_def relativeIndex_def min_def)

lemma sliceFrom_neg_all:
  "1 \<le> N \<Longrightarrow> int (length xs) \<le> N \<Longrightarrow> sliceFrom xs (- N) = xs"
  by (simp add: sliceFrom_neg)

lemma clamp_fixed:
  "1 \<le> N \<Longrightarrow> int (length es) \<le> N \<Longrightarrow> 0 \<le> i \<Longrightarrow> i < int (length es) \<Longrightarrow>
   clampNavigationState N \<lparr>entries = es, index = i, transition = t\<rparr>
     = \<lparr>entries = es, index = i, transition = t\<rparr>"
  by (simp add: clampNavigationState_def Let_def sliceFrom_neg_all)

lemma length_cellGet_le:
  "wellConfigured env \<Longrightarrow> maxEntries env = Some N \<Longrightarrow>
   int (length (entries (cellGet env s))) \<le> N"
  by (auto simp: wellConfigured_def cellGet_def cellTransform_def clampNavigationState_def
        Let_def length_sliceFrom_neg)

lemma cellTransform_fixed:
  assumes "wellConfigured env"
      and "length es = length (entries (cellGet env s))"
      and "0 \<le> i" and "i < int (length es)"
  shows "cellTransform env \<lparr>entries = es, index = i, transition = t\<rparr>
           = \<lparr>entries = es, index = i, transition = t\<rparr>"
proof (cases "maxEntries env")
  case None
  then show ?thesis by (simp add: cellTransform_def)
next
  case (Some N)
  with assms(1) have "1 \<le> N" by (simp add: wellConfigured_def)
  moreover from length_cellGet_le [OF assms(1) Some, of s] assms(2)
  have "int (length es) \<le> N" by simp
  ultimately show ?thesis
    using Some assms(3,4) by (simp add: cellTransform_def clamp_fixed)
qed

lemma commitAndMutate_Success:
  assumes "newNavigationState env = None"
      and "commitAndMutate env ev current skipCommit s = (Success to, s')"
  shows "cell s' = cellTransform env (mutate ev to current)"
  using assms
  by (auto simp: commitAndMutate_def cellSet_def Let_def
        split: prod.splits option.splits if_splits Target.splits)

lemma runNavigationEvent_pass:
  assumes wf: "wellConfigured env"
      and pass: "skipCommit \<or> fst (runBeforeHandlers (beforeHandlers env) ev (world s)) = None"
  shows "\<exists>w. runNavigationEvent env ev s depth skipCommit
           = commitAndMutate env ev ((cellGet env s)\<lparr>transition := Some ev\<rparr>) skipCommit
               ((cellWrite ((cellGet env s)\<lparr>transition := Some ev\<rparr>) s)\<lparr>world := w\<rparr>)"
proof (cases skipCommit)
  case True
  then show ?thesis
    by (auto simp: runNavigationEvent.simps cellSet_transition [OF wf] intro: exI [of _ "world s"])
next
  case False
  with pass obtain w where "runBeforeHandlers (beforeHandlers env) ev (world s) = (None, w)"
    by (cases "runBeforeHandlers (beforeHandlers env) ev (world s)") auto
  with False show ?thesis
    by (auto simp: runNavigationEvent.simps cellSet_transition [OF wf])
qed

lemma committed_cell:
  assumes wf: "wellConfigured env" and nn: "newNavigationState env = None"
      and pass: "skipCommit \<or> fst (runBeforeHandlers (beforeHandlers env) ev (world s)) = None"
      and run: "runNavigationEvent env ev s depth skipCommit = (Success to, s')"
  shows "cellGet env s'
           = cellTransform env (mutate ev to ((cellGet env s)\<lparr>transition := Some ev\<rparr>))"
proof -
  from runNavigationEvent_pass [OF wf pass, of depth] run obtain w where
    "commitAndMutate env ev ((cellGet env s)\<lparr>transition := Some ev\<rparr>) skipCommit
       ((cellWrite ((cellGet env s)\<lparr>transition := Some ev\<rparr>) s)\<lparr>world := w\<rparr>) = (Success to, s')"
    by auto
  from commitAndMutate_Success [OF nn this] show ?thesis
    by (simp add: cellGet_def cellTransform_idem [OF wf])
qed

lemma mutate_push:
  "type' ev = Push \<Longrightarrow> 0 \<le> index c \<Longrightarrow>
   mutate ev to (c\<lparr>transition := t\<rparr>)
     = \<lparr>entries = take (nat (index c) + 1) (entries c) @ [to], index = index c + 1,
        transition = None\<rparr>"
  by (simp add: mutate_def Let_def slice_0_take nat_add_distrib)

lemma mutate_replace:
  "type' ev = Replace \<Longrightarrow> 0 \<le> index c \<Longrightarrow> index c < int (length (entries c)) \<Longrightarrow>
   mutate ev to (c\<lparr>transition := t\<rparr>)
     = \<lparr>entries = (entries c)[nat (index c) := to], index = index c, transition = None\<rparr>"
  by (simp add: mutate_def Let_def slice_0_take sliceFrom_drop nat_add_distrib
        upd_conv_take_nth_drop)

lemma mutate_reload:
  "type' ev = Reload \<Longrightarrow>
   mutate ev to (c\<lparr>transition := t\<rparr>)
     = \<lparr>entries = entries c, index = index c, transition = None\<rparr>"
  by (simp add: mutate_def)

lemma mutate_traverse:
  "type' ev = Traverse \<Longrightarrow>
   mutate ev to (c\<lparr>transition := t\<rparr>)
     = \<lparr>entries = entries c, index = index c + delta ev, transition = None\<rparr>"
  by (simp add: mutate_def)

lemma clamp_push_length:
  assumes "1 \<le> N" "0 \<le> i" "i < int (length es)"
  shows "int (length (entries (clampNavigationState N
            \<lparr>entries = take (nat i + 1) es @ [to], index = i + 1, transition = None\<rparr>)))
         = min (i + 2) N"
proof -
  have "length (take (nat i + 1) es @ [to]) = nat i + 2"
    using assms by simp
  with length_sliceFrom_neg [OF assms(1), of "take (nat i + 1) es @ [to]"]
  have "length (sliceFrom (take (nat i + 1) es @ [to]) (- N)) = min (nat i + 2) (nat N)"
    by (simp only:)
  moreover have "int (min (nat i + 2) (nat N)) = min (i + 2) N"
    using assms by arith
  ultimately show ?thesis
    by (simp only: clampNavigationState_def Let_def NavigationState.simps)
qed

lemma clamp_push_current:
  assumes "1 \<le> N" "0 \<le> i" "i < int (length es)"
  shows "entryAt
           (entries (clampNavigationState N
              \<lparr>entries = take (nat i + 1) es @ [to], index = i + 1, transition = None\<rparr>))
           (index (clampNavigationState N
              \<lparr>entries = take (nat i + 1) es @ [to], index = i + 1, transition = None\<rparr>))
         = Some to"
proof -
  define xs where "xs = take (nat i + 1) es @ [to]"
  define ys where "ys = drop (length xs - nat N) xs"
  have len: "length xs = nat i + 2"
    using assms by (simp add: xs_def)
  have ent: "sliceFrom xs (- N) = ys"
    unfolding ys_def using assms(1) by (rule sliceFrom_neg)
  have "length ys = (nat i + 2) - ((nat i + 2) - nat N)"
    by (simp only: ys_def length_drop len)
  then have n: "length ys = min (nat i + 2) (nat N)"
    by arith
  have pos: "0 < length ys"
    using n assms(1) by arith
  have idx: "min (max 0 (i + 1)) (int (length ys) - 1) = int (length ys) - 1"
    using n assms by arith
  have "ys \<noteq> []" using pos by auto
  then have "ys ! (length ys - 1) = last ys"
    by (simp add: last_conv_nth)
  also have "\<dots> = last xs"
    unfolding ys_def using pos len n by (intro last_drop) (simp add: ys_def)
  also have "\<dots> = to"
    by (simp add: xs_def)
  finally have nth: "ys ! (length ys - 1) = to" .
  have c: "clampNavigationState N \<lparr>entries = xs, index = i + 1, transition = None\<rparr>
             = \<lparr>entries = ys, index = int (length ys) - 1, transition = None\<rparr>"
    by (simp add: clampNavigationState_def Let_def ent idx)
  have "nat (int (length ys) - 1) = length ys - 1"
    by arith
  then have "entryAt ys (int (length ys) - 1) = Some to"
    using pos nth by (simp add: entryAt_def)
  then show ?thesis
    unfolding xs_def [symmetric] c by simp
qed

text \<open>
  Claim C1. Take a transition that passes the Before phase (the commit is skipped, or
  the before-handlers report no error) and is committed with destination \<open>to\<close>, from
  a state \<open>c\<close> of the cell with \<open>0 \<le> index < entries.length\<close>, in an engine without
  \<open>newNavigationState\<close>. Afterwards the cell has no transition, and by event type:
  \<^item> \<open>push\<close>: the cell holds the transform of \<open>entries[0..index] @ [to]\<close> with index
    \<open>index + 1\<close>; its current entry is \<open>to\<close>; under a bound \<open>N\<close> its length is
    \<open>min (index + 2) N\<close>; where the bound does not cut, it is that state itself;
  \<^item> \<open>replace\<close>: the entries are those of \<open>c\<close> with position \<open>index\<close> set to \<open>to\<close>,
    and the index is unchanged;
  \<^item> \<open>reload\<close>: entries and index are unchanged;
  \<^item> \<open>traverse\<close>: the entries are unchanged and the index is \<open>index + delta\<close>, for a
    delta that stays inside the list.
\<close>

theorem mutate_phase:
  assumes wf: "wellConfigured env" and nn: "newNavigationState env = None"
      and c: "c = cellGet env s"
      and lo: "0 \<le> index c" and hi: "index c < int (length (entries c))"
      and pass: "skipCommit \<or> fst (runBeforeHandlers (beforeHandlers env) ev (world s)) = None"
      and run: "runNavigationEvent env ev s depth skipCommit = (Success to, s')"
  shows "transition (cellGet env s') = None
     \<and> (type' ev = Push \<longrightarrow>
          cellGet env s'
            = cellTransform env
                \<lparr>entries = take (nat (index c) + 1) (entries c) @ [to], index = index c + 1,
                 transition = None\<rparr>
          \<and> entryAt (entries (cellGet env s')) (index (cellGet env s')) = Some to
          \<and> (\<forall>N. maxEntries env = Some N \<longrightarrow>
                 int (length (entries (cellGet env s'))) = min (index c + 2) N)
          \<and> ((\<forall>N. maxEntries env = Some N \<longrightarrow> index c + 2 \<le> N) \<longrightarrow>
                 cellGet env s'
                   = \<lparr>entries = take (nat (index c) + 1) (entries c) @ [to],
                      index = index c + 1, transition = None\<rparr>))
     \<and> (type' ev = Replace \<longrightarrow>
          entries (cellGet env s') = (entries c)[nat (index c) := to]
          \<and> index (cellGet env s') = index c)
     \<and> (type' ev = Reload \<longrightarrow>
          entries (cellGet env s') = entries c \<and> index (cellGet env s') = index c)
     \<and> (type' ev = Traverse \<longrightarrow>
          entries (cellGet env s') = entries c
          \<and> (0 \<le> index c + delta ev \<and> index c + delta ev < int (length (entries c)) \<longrightarrow>
                index (cellGet env s') = index c + delta ev))"
proof -
  let ?pushed = "\<lparr>entries = take (nat (index c) + 1) (entries c) @ [to], index = index c + 1,
                  transition = None\<rparr>"
  have after: "cellGet env s' = cellTransform env (mutate ev to (c\<lparr>transition := Some ev\<rparr>))"
    using committed_cell [OF wf nn pass run] c by simp
  have tr: "transition (cellGet env s') = None"
    unfolding after
    by (cases "maxEntries env")
       (auto simp: cellTransform_def clampNavigationState_def mutate_def Let_def)
  have push: "cellGet env s' = cellTransform env ?pushed
          \<and> entryAt (entries (cellGet env s')) (index (cellGet env s')) = Some to
          \<and> (\<forall>N. maxEntries env = Some N \<longrightarrow>
                 int (length (entries (cellGet env s'))) = min (index c + 2) N)
          \<and> ((\<forall>N. maxEntries env = Some N \<longrightarrow> index c + 2 \<le> N) \<longrightarrow>
                 cellGet env s' = ?pushed)"
    if p: "type' ev = Push"
  proof -
    have a: "cellGet env s' = cellTransform env ?pushed"
      unfolding after by (simp add: mutate_push [OF p lo])
    have len: "length (take (nat (index c) + 1) (entries c) @ [to]) = nat (index c) + 2"
      using lo hi by simp
    show ?thesis
    proof (cases "maxEntries env")
      case None
      then show ?thesis
        using a lo len by (simp add: cellTransform_def entryAt_def nth_append)
    next
      case (Some N)
      with wf have N: "1 \<le> N" by (simp add: wellConfigured_def)
      have b: "cellGet env s' = clampNavigationState N ?pushed"
        using a Some by (simp add: cellTransform_def)
      have fit: "cellGet env s' = ?pushed" if "index c + 2 \<le> N"
      proof -
        have "int (length (take (nat (index c) + 1) (entries c) @ [to])) \<le> N"
          using that lo unfolding len by arith
        moreover have "index c + 1 < int (length (take (nat (index c) + 1) (entries c) @ [to]))"
          using lo unfolding len by arith
        ultimately show ?thesis
          unfolding b using lo by (intro clamp_fixed [OF N]) auto
      qed
      show ?thesis
        using a Some fit clamp_push_length [OF N lo hi, of to]
          clamp_push_current [OF N lo hi, of to]
        unfolding b by simp
    qed
  qed
  have replace: "entries (cellGet env s') = (entries c)[nat (index c) := to]
          \<and> index (cellGet env s') = index c"
    if r: "type' ev = Replace"
  proof -
    have "cellTransform env
            \<lparr>entries = (entries c)[nat (index c) := to], index = index c, transition = None\<rparr>
          = \<lparr>entries = (entries c)[nat (index c) := to], index = index c, transition = None\<rparr>"
      using lo hi c by (intro cellTransform_fixed [OF wf, of _ s]) auto
    then show ?thesis
      unfolding after by (simp add: mutate_replace [OF r lo hi])
  qed
  have reload: "entries (cellGet env s') = entries c \<and> index (cellGet env s') = index c"
    if r: "type' ev = Reload"
  proof -
    have "cellTransform env \<lparr>entries = entries c, index = index c, transition = None\<rparr>
          = \<lparr>entries = entries c, index = index c, transition = None\<rparr>"
      using lo hi c by (intro cellTransform_fixed [OF wf, of _ s]) auto
    then show ?thesis
      unfolding after by (simp add: mutate_reload [OF r])
  qed
  have traverse: "entries (cellGet env s') = entries c
          \<and> (0 \<le> index c + delta ev \<and> index c + delta ev < int (length (entries c)) \<longrightarrow>
                index (cellGet env s') = index c + delta ev)"
    if t: "type' ev = Traverse"
  proof -
    have e: "entries (cellTransform env
               \<lparr>entries = entries c, index = index c + delta ev, transition = None\<rparr>)
             = entries c"
    proof (cases "maxEntries env")
      case None
      then show ?thesis by (simp add: cellTransform_def)
    next
      case (Some N)
      with wf have N: "1 \<le> N" by (simp add: wellConfigured_def)
      from length_cellGet_le [OF wf Some, of s] c have "int (length (entries c)) \<le> N"
        by simp
      then show ?thesis
        using Some N by (simp add: cellTransform_def clampNavigationState_def Let_def
            sliceFrom_neg_all)
    qed
    have i: "index (cellTransform env
               \<lparr>entries = entries c, index = index c + delta ev, transition = None\<rparr>)
             = index c + delta ev"
      if "0 \<le> index c + delta ev" "index c + delta ev < int (length (entries c))"
    proof -
      have "cellTransform env
              \<lparr>entries = entries c, index = index c + delta ev, transition = None\<rparr>
            = \<lparr>entries = entries c, index = index c + delta ev, transition = None\<rparr>"
        using that c by (intro cellTransform_fixed [OF wf, of _ s]) auto
      then show ?thesis by simp
    qed
    show ?thesis
      unfolding after using e i by (simp add: mutate_traverse [OF t])
  qed
  show ?thesis
    using tr push replace reload traverse by blast
qed

theorem mutate_phase_witness:
  "wellConfigured (exampleEnv [scriptedHandler 0 Abstain] [])
   \<and> newNavigationState (exampleEnv [scriptedHandler 0 Abstain] []) = None
   \<and> 0 \<le> index (cellGet (exampleEnv [scriptedHandler 0 Abstain] []) (exampleSys []))
   \<and> index (cellGet (exampleEnv [scriptedHandler 0 Abstain] []) (exampleSys []))
       < int (length (entries (cellGet (exampleEnv [scriptedHandler 0 Abstain] [])
                                 (exampleSys []))))
   \<and> fst (runBeforeHandlers (beforeHandlers (exampleEnv [scriptedHandler 0 Abstain] []))
            \<lparr>type' = Push, from' = exampleEntry, delta = 1,
             to' = Dest \<lparr>url = exampleUrl ''/foo/2'', state = Undefined,
                         sameDocument = True, id' = 7, key = 8\<rparr>,
             info = Undefined\<rparr>
            (world (exampleSys []))) = None
   \<and> runNavigationEvent (exampleEnv [scriptedHandler 0 Abstain] [])
        \<lparr>type' = Push, from' = exampleEntry, delta = 1,
         to' = Dest \<lparr>url = exampleUrl ''/foo/2'', state = Undefined,
                     sameDocument = True, id' = 7, key = 8\<rparr>,
         info = Undefined\<rparr>
        (exampleSys []) 0 False
     = (Success \<lparr>url = exampleUrl ''/foo/2'', state = Undefined, sameDocument = True,
                 id' = 7, key = 8\<rparr>,
        \<lparr>cell = \<lparr>entries = [exampleEntry,
                              \<lparr>url = exampleUrl ''/foo/2'', state = Undefined,
                               sameDocument = True, id' = 7, key = 8\<rparr>],
                  index = 1, transition = None\<rparr>,
         writes = [\<lparr>entries = [exampleEntry], index = 0,
                     transition = Some \<lparr>type' = Push, from' = exampleEntry, delta = 1,
                             to' = Dest \<lparr>url = exampleUrl ''/foo/2'', state = Undefined,
                               sameDocument = True, id' = 7, key = 8\<rparr>,
                             info = Undefined\<rparr>\<rparr>,
                   \<lparr>entries = [exampleEntry,
                              \<lparr>url = exampleUrl ''/foo/2'', state = Undefined,
                               sameDocument = True, id' = 7, key = 8\<rparr>],
                    index = 1, transition = None\<rparr>],
         drawn = 0, world = [BeforePolled 0 ''/foo/2'']\<rparr>)
   \<and> entryAt
        (entries (cellGet (exampleEnv [scriptedHandler 0 Abstain] [])
           \<lparr>cell = \<lparr>entries = [exampleEntry,
                              \<lparr>url = exampleUrl ''/foo/2'', state = Undefined,
                               sameDocument = True, id' = 7, key = 8\<rparr>],
                  index = 1, transition = None\<rparr>,
            writes = [\<lparr>entries = [exampleEntry], index = 0,
                     transition = Some \<lparr>type' = Push, from' = exampleEntry, delta = 1,
                             to' = Dest \<lparr>url = exampleUrl ''/foo/2'', state = Undefined,
                               sameDocument = True, id' = 7, key = 8\<rparr>,
                             info = Undefined\<rparr>\<rparr>,
                   \<lparr>entries = [exampleEntry,
                              \<lparr>url = exampleUrl ''/foo/2'', state = Undefined,
                               sameDocument = True, id' = 7, key = 8\<rparr>],
                    index = 1, transition = None\<rparr>],
            drawn = 0, world = [BeforePolled 0 ''/foo/2'']\<rparr>))
        (index (cellGet (exampleEnv [scriptedHandler 0 Abstain] [])
           \<lparr>cell = \<lparr>entries = [exampleEntry,
                              \<lparr>url = exampleUrl ''/foo/2'', state = Undefined,
                               sameDocument = True, id' = 7, key = 8\<rparr>],
                  index = 1, transition = None\<rparr>,
            writes = [\<lparr>entries = [exampleEntry], index = 0,
                     transition = Some \<lparr>type' = Push, from' = exampleEntry, delta = 1,
                             to' = Dest \<lparr>url = exampleUrl ''/foo/2'', state = Undefined,
                               sameDocument = True, id' = 7, key = 8\<rparr>,
                             info = Undefined\<rparr>\<rparr>,
                   \<lparr>entries = [exampleEntry,
                              \<lparr>url = exampleUrl ''/foo/2'', state = Undefined,
                               sameDocument = True, id' = 7, key = 8\<rparr>],
                    index = 1, transition = None\<rparr>],
            drawn = 0, world = [BeforePolled 0 ''/foo/2'']\<rparr>))
      = Some \<lparr>url = exampleUrl ''/foo/2'', state = Undefined, sameDocument = True,
              id' = 7, key = 8\<rparr>"
proof -
  let ?E = "exampleEnv [scriptedHandler 0 Abstain] []"
  let ?to = "\<lparr>url = exampleUrl ''/foo/2'', state = Undefined, sameDocument = True,
              id' = 7, key = 8\<rparr>"
  let ?ev = "\<lparr>type' = Push, from' = exampleEntry, delta = 1, to' = Dest ?to,
              info = Undefined\<rparr>"
  let ?S' = "\<lparr>cell = \<lparr>entries = [exampleEntry, ?to], index = 1, transition = None\<rparr>,
              writes = [\<lparr>entries = [exampleEntry], index = 0,
                     transition = Some \<lparr>type' = Push, from' = exampleEntry, delta = 1,
                             to' = Dest \<lparr>url = exampleUrl ''/foo/2'', state = Undefined,
                               sameDocument = True, id' = 7, key = 8\<rparr>,
                             info = Undefined\<rparr>\<rparr>,
                   \<lparr>entries = [exampleEntry,
                              \<lparr>url = exampleUrl ''/foo/2'', state = Undefined,
                               sameDocument = True, id' = 7, key = 8\<rparr>],
                    index = 1, transition = None\<rparr>],
              drawn = 0, world = [BeforePolled 0 ''/foo/2'']\<rparr>"
  have wf: "wellConfigured ?E" by code_simp
  have nn: "newNavigationState ?E = None" by (simp add: exampleEnv_def)
  have lo: "0 \<le> index (cellGet ?E (exampleSys []))" by code_simp
  have hi: "index (cellGet ?E (exampleSys []))
              < int (length (entries (cellGet ?E (exampleSys []))))" by code_simp
  have b: "fst (runBeforeHandlers (beforeHandlers ?E) ?ev (world (exampleSys []))) = None"
    by code_simp
  have run: "runNavigationEvent ?E ?ev (exampleSys []) 0 False = (Success ?to, ?S')"
    by code_simp
  have p: "type' ?ev = Push" by simp
  from mutate_phase [OF wf nn refl lo hi disjI2 [OF b] run] p
  have "entryAt (entries (cellGet ?E ?S')) (index (cellGet ?E ?S')) = Some ?to"
    by blast
  with wf nn lo hi b run show ?thesis
    by (intro conjI)
qed


section \<open>The Before phase\<close>

lemma scriptedHandlersFrom_append:
  "scriptedHandlersFrom i (xs @ ys)
     = scriptedHandlersFrom i xs @ scriptedHandlersFrom (i + length xs) ys"
  by (induction xs arbitrary: i) auto

lemma pollBeforeHandlers_scripted:
  assumes "\<forall>sc \<in> set scs. \<not> isSyncFail sc"
  shows "pollBeforeHandlers (scriptedHandlersFrom i scs) ev ms w
           = (Inr (ms @ map (\<lambda>(j, r). scriptedDeferred j r) (deferredOf i scs)),
              w @ map (\<lambda>k. BeforePolled k (targetPath (to' ev))) [i..<i + length scs])"
  using assms
proof (induction scs arbitrary: i ms w)
  case Nil
  then show ?case by simp
next
  case (Cons sc scs)
  have upt: "[i..<i + length (sc # scs)] = i # [Suc i..<Suc i + length scs]"
  proof -
    have "i < i + length (sc # scs)" by simp
    then have "[i..<i + length (sc # scs)] = i # [Suc i..<i + length (sc # scs)]"
      by (rule upt_conv_Cons)
    moreover have "i + length (sc # scs) = Suc i + length scs" by simp
    ultimately show ?thesis by (simp only:)
  qed
  from Cons.prems have rest: "\<forall>sc \<in> set scs. \<not> isSyncFail sc" by simp
  show ?case
  proof (cases sc)
    case (SyncFail e)
    with Cons.prems show ?thesis by simp
  next
    case Abstain
    then show ?thesis
      unfolding upt by (simp add: scriptedHandler_def Cons.IH [OF rest])
  next
    case (Defer r)
    then show ?thesis
      unfolding upt by (simp add: scriptedHandler_def Cons.IH [OF rest])
  qed
qed

lemma pollBeforeHandlers_scripted_fail:
  assumes "\<forall>sc \<in> set pre. \<not> isSyncFail sc"
  shows "pollBeforeHandlers (scriptedHandlersFrom i (pre @ SyncFail e # post)) ev ms w
           = (Inl e,
              w @ map (\<lambda>k. BeforePolled k (targetPath (to' ev))) [i..<Suc (i + length pre)])"
proof -
  have split: "[i..<Suc (i + length pre)] = [i..<i + length pre] @ [i + length pre]"
    by simp
  have poll: "pollBeforeHandlers (hs1 @ hs2) ev ms w
                = (case pollBeforeHandlers hs1 ev ms w of
                     (Inl x, w1) \<Rightarrow> (Inl x, w1)
                   | (Inr ms1, w1) \<Rightarrow> pollBeforeHandlers hs2 ev ms1 w1)"
    for hs1 hs2 :: "Trace list BeforeNavigationHandler list" and ms w
    by (induction hs1 arbitrary: ms w) (auto split: prod.splits sum.splits)
  show ?thesis
    unfolding scriptedHandlersFrom_append poll pollBeforeHandlers_scripted [OF assms] split
    by (simp add: scriptedHandler_def)
qed

lemma runMatches_scripted_ok:
  assumes "\<forall>x \<in> set ds. snd x = None"
  shows "runMatches (map (\<lambda>(j, r). scriptedDeferred j r) ds) w
           = (None, w @ map DeferredRun (map fst ds))"
  using assms
  by (induction ds arbitrary: w) (auto simp: scriptedDeferred_def)

lemma runMatches_scripted_fail:
  assumes "\<forall>x \<in> set dpre. snd x = None"
  shows "runMatches (map (\<lambda>(j, r). scriptedDeferred j r) (dpre @ (j, Some e) # dpost)) w
           = (Some e, w @ map DeferredRun (map fst dpre @ [j]))"
  using assms
  by (induction dpre arbitrary: w) (auto simp: scriptedDeferred_def)

text \<open>
  Claim C3. The before-handlers are scripted: handler \<open>i\<close> logs \<open>BeforePolled i\<close> when
  polled and answers as its script says; its deferred effect logs \<open>DeferredRun i\<close> when
  run. Then, for every script list and every log \<open>w\<close> so far:
  \<^item> when a handler fails synchronously, exactly the handlers up to and including the
    first such handler have been polled, in insertion order; no later handler is
    polled and no deferred effect is run;
  \<^item> when no handler fails synchronously, all handlers are polled in insertion order
    and then the deferred effects run in the order in which they were returned, up to
    and including the first one that fails; the later ones do not run;
  \<^item> when nothing fails, all handlers are polled and all deferred effects run, in
    order, and the phase reports no error.
\<close>

theorem before_phase_order:
  "((\<forall>sc \<in> set pre. \<not> isSyncFail sc) \<longrightarrow>
      runBeforeHandlers (scriptedHandlers (pre @ SyncFail e # post)) ev w
        = (Some e,
           w @ map (\<lambda>k. BeforePolled k (targetPath (to' ev))) [0..<Suc (length pre)]))
   \<and> ((\<forall>sc \<in> set scs. \<not> isSyncFail sc)
        \<and> deferredOf 0 scs = dpre @ (j, Some e) # dpost
        \<and> (\<forall>x \<in> set dpre. snd x = None) \<longrightarrow>
      runBeforeHandlers (scriptedHandlers scs) ev w
        = (Some e,
           w @ map (\<lambda>k. BeforePolled k (targetPath (to' ev))) [0..<length scs]
             @ map DeferredRun (map fst dpre @ [j])))
   \<and> ((\<forall>sc \<in> set scs. \<not> isSyncFail sc)
        \<and> (\<forall>x \<in> set (deferredOf 0 scs). snd x = None) \<longrightarrow>
      runBeforeHandlers (scriptedHandlers scs) ev w
        = (None,
           w @ map (\<lambda>k. BeforePolled k (targetPath (to' ev))) [0..<length scs]
             @ map DeferredRun (map fst (deferredOf 0 scs))))"
proof (intro conjI impI)
  assume "\<forall>sc \<in> set pre. \<not> isSyncFail sc"
  from pollBeforeHandlers_scripted_fail [OF this, of 0 e post ev "[]" w]
  show "runBeforeHandlers (scriptedHandlers (pre @ SyncFail e # post)) ev w
        = (Some e,
           w @ map (\<lambda>k. BeforePolled k (targetPath (to' ev))) [0..<Suc (length pre)])"
    by (simp add: runBeforeHandlers_def scriptedHandlers_def)
next
  assume a: "(\<forall>sc \<in> set scs. \<not> isSyncFail sc)
        \<and> deferredOf 0 scs = dpre @ (j, Some e) # dpost
        \<and> (\<forall>x \<in> set dpre. snd x = None)"
  then have ns: "\<forall>sc \<in> set scs. \<not> isSyncFail sc"
    and d: "deferredOf 0 scs = dpre @ (j, Some e) # dpost"
    and ok: "\<forall>x \<in> set dpre. snd x = None"
    by blast+
  show "runBeforeHandlers (scriptedHandlers scs) ev w
        = (Some e,
           w @ map (\<lambda>k. BeforePolled k (targetPath (to' ev))) [0..<length scs]
             @ map DeferredRun (map fst dpre @ [j]))"
    using pollBeforeHandlers_scripted [OF ns, of 0 ev "[]" w]
      runMatches_scripted_fail [OF ok, of j e dpost]
    by (simp add: runBeforeHandlers_def scriptedHandlers_def d)
next
  assume a: "(\<forall>sc \<in> set scs. \<not> isSyncFail sc)
        \<and> (\<forall>x \<in> set (deferredOf 0 scs). snd x = None)"
  then have ns: "\<forall>sc \<in> set scs. \<not> isSyncFail sc"
    and ok: "\<forall>x \<in> set (deferredOf 0 scs). snd x = None"
    by blast+
  show "runBeforeHandlers (scriptedHandlers scs) ev w
        = (None,
           w @ map (\<lambda>k. BeforePolled k (targetPath (to' ev))) [0..<length scs]
             @ map DeferredRun (map fst (deferredOf 0 scs)))"
    using pollBeforeHandlers_scripted [OF ns, of 0 ev "[]" w]
      runMatches_scripted_ok [OF ok]
    by (simp add: runBeforeHandlers_def scriptedHandlers_def)
qed

theorem before_phase_order_witness:
  "\<not> isSyncFail (Defer None) \<and> \<not> isSyncFail Abstain
   \<and> runBeforeHandlers
        (scriptedHandlers [Defer None, Abstain, SyncFail CancelNavigation, Defer None])
        (reloadEvent exampleEntry Undefined) []
      = (Some CancelNavigation,
         [BeforePolled 0 ''/foo/1'', BeforePolled 1 ''/foo/1'', BeforePolled 2 ''/foo/1''])
   \<and> \<not> isSyncFail (Defer (Some CancelNavigation))
   \<and> deferredOf 0 [Defer None, Abstain, Defer (Some CancelNavigation), Defer None]
      = [(0, None)] @ (2, Some CancelNavigation) # [(3, None)]
   \<and> runBeforeHandlers
        (scriptedHandlers [Defer None, Abstain, Defer (Some CancelNavigation), Defer None])
        (reloadEvent exampleEntry Undefined) []
      = (Some CancelNavigation,
         [BeforePolled 0 ''/foo/1'', BeforePolled 1 ''/foo/1'', BeforePolled 2 ''/foo/1'',
          BeforePolled 3 ''/foo/1'', DeferredRun 0, DeferredRun 2])"
proof -
  let ?ev = "reloadEvent exampleEntry Undefined"
  have p: "targetPath (to' ?ev) = ''/foo/1''"
    by code_simp
  have h1: "\<forall>sc \<in> set [Defer None, Abstain]. \<not> isSyncFail sc"
    by simp
  have r1: "runBeforeHandlers
        (scriptedHandlers [Defer None, Abstain, SyncFail CancelNavigation, Defer None]) ?ev []
      = (Some CancelNavigation,
         [BeforePolled 0 ''/foo/1'', BeforePolled 1 ''/foo/1'', BeforePolled 2 ''/foo/1''])"
    using before_phase_order [THEN conjunct1, THEN mp, OF h1,
        of CancelNavigation "[Defer None]" ?ev "[]"]
    by (simp add: p upt_rec)
  have h2: "\<forall>sc \<in> set [Defer None, Abstain, Defer (Some CancelNavigation), Defer None].
              \<not> isSyncFail sc"
    by simp
  have d: "deferredOf 0 [Defer None, Abstain, Defer (Some CancelNavigation), Defer None]
      = [(0, None)] @ (2, Some CancelNavigation) # [(3, None)]"
    by code_simp
  have h3: "\<forall>x \<in> set [(0::nat, None :: BeforeError option)]. snd x = None"
    by simp
  have r2: "runBeforeHandlers
        (scriptedHandlers [Defer None, Abstain, Defer (Some CancelNavigation), Defer None])
        ?ev []
      = (Some CancelNavigation,
         [BeforePolled 0 ''/foo/1'', BeforePolled 1 ''/foo/1'', BeforePolled 2 ''/foo/1'',
          BeforePolled 3 ''/foo/1'', DeferredRun 0, DeferredRun 2])"
    using before_phase_order [THEN conjunct2, THEN conjunct1, THEN mp,
        OF conjI [OF h2 conjI [OF d h3]], of ?ev "[]"]
    by (simp add: p upt_rec)
  from r1 r2 d show ?thesis
    by simp
qed


section \<open>The redirect and cancel branches\<close>

lemma runNavigationEvent_before_error:
  assumes wf: "wellConfigured env"
      and b: "runBeforeHandlers (beforeHandlers env) ev (world s) = (Some e, w)"
  shows "runNavigationEvent env ev s depth False
           = handleError env e
               ((cellWrite ((cellGet env s)\<lparr>transition := Some ev\<rparr>) s)\<lparr>world := w\<rparr>) depth"
  using b by (simp add: runNavigationEvent.simps cellSet_transition [OF wf])

lemma runNavigationEvent_before_ok:
  assumes wf: "wellConfigured env"
      and b: "runBeforeHandlers (beforeHandlers env) ev (world s) = (None, w)"
  shows "runNavigationEvent env ev s depth False
           = commitAndMutate env ev ((cellGet env s)\<lparr>transition := Some ev\<rparr>) False
               ((cellWrite ((cellGet env s)\<lparr>transition := Some ev\<rparr>) s)\<lparr>world := w\<rparr>)"
  using b by (simp add: runNavigationEvent.simps cellSet_transition [OF wf])

lemma cellGet_in_flight:
  assumes wf: "wellConfigured env"
  shows "cellGet env ((cellWrite ((cellGet env s)\<lparr>transition := t\<rparr>) s)\<lparr>world := w\<rparr>)
           = (cellGet env s)\<lparr>transition := t\<rparr>"
  by (simp add: cellGet_def cellTransform_transition cellTransform_idem [OF wf])

lemma cellTransform_cleared:
  assumes wf: "wellConfigured env"
  shows "cellTransform env
           \<lparr>entries = entries (cellGet env s), index = index (cellGet env s),
            transition = None\<rparr>
         = (cellGet env s)\<lparr>transition := None\<rparr>"
proof -
  have e: "\<lparr>entries = entries (cellGet env s), index = index (cellGet env s),
            transition = None\<rparr>
           = (cellGet env s)\<lparr>transition := None\<rparr>"
    by simp
  show ?thesis
    unfolding e
    by (simp add: cellTransform_transition cellGet_def cellTransform_idem [OF wf])
qed

lemma handleError_die:
  "25 \<le> depth \<Longrightarrow> handleError env e s depth = (Die ''Redirect loop detected.'', s)"
  by (simp add: handleError.simps)

lemma handleError_cancel:
  assumes "depth < 25"
      and "entryAt (entries (cellGet env s)) (index (cellGet env s)) = Some current"
  shows "handleError env CancelNavigation s depth
           = (Success current,
              cellWrite (cellTransform env
                   \<lparr>entries = entries (cellGet env s), index = index (cellGet env s),
                    transition = None\<rparr>) s)"
  using assms by (simp add: handleError.simps cellSet_def Let_def)

lemma handleError_redirect:
  assumes "depth < 25"
      and "entryAt (entries (cellGet env s)) (index (cellGet env s)) = Some current"
  shows "handleError env (RedirectError path rs ri) s depth
           = (let (event, s1) = makeRedirectEvent env (env_origin env) path rs ri current s
              in runNavigationEvent env event s1 (Suc depth) False)"
  using assms by (simp add: handleError.simps Let_def)

lemma makeDestination_frame:
  "makeDestination env u st orig s = (to, s1) \<Longrightarrow> cell s1 = cell s \<and> world s1 = world s"
  by (cases st) (auto simp: makeDestination_def makeUuid_def Let_def)

lemma makeRedirectEvent_frame:
  "makeRedirectEvent env orig path rs ri from s = (ev, s1) \<Longrightarrow>
   cell s1 = cell s \<and> world s1 = world s"
  by (auto simp: makeRedirectEvent_def Let_def split: prod.splits dest: makeDestination_frame)

lemma navigateEvent_frame:
  "navigateEvent env p opts s = Some (ev, s1) \<Longrightarrow> cell s1 = cell s \<and> world s1 = world s"
  by (auto simp: navigateEvent_def makeOrUpdateDestination_def makeUuid_def Let_def
        split: option.splits if_splits prod.splits dest: makeDestination_frame)

lemma navigateEvent_defined:
  assumes "entryAt (entries (cellGet env s)) (index (cellGet env s)) = Some current"
  shows "\<exists>ev s1. navigateEvent env p opts s = Some (ev, s1)"
  using assms
  by (auto simp: navigateEvent_def makeOrUpdateDestination_def Let_def
        split: option.splits if_splits prod.splits)

lemma cellGet_frame:
  "cell s1 = cell s \<Longrightarrow> cellGet env s1 = cellGet env s"
  by (simp add: cellGet_def)


section \<open>Chains of redirects from one handler\<close>

lemma redirectTimes_redirects:
  "length w < k \<Longrightarrow>
   runBeforeHandlers [redirectTimes k final] ev w
     = (Some (RedirectError (PathString ''/next'') Undefined Undefined),
        w @ [BeforePolled 0 (targetPath (to' ev))])"
  by (simp add: runBeforeHandlers_def redirectTimes_def)

lemma redirectTimes_passes:
  "k \<le> length w \<Longrightarrow>
   runBeforeHandlers [redirectTimes k (Inr None)] ev w
     = (None, w @ [BeforePolled 0 (targetPath (to' ev))])"
  by (simp add: runBeforeHandlers_def redirectTimes_def)

lemma redirectTimes_fails:
  "length w < k \<or> final = Inl e \<Longrightarrow>
   \<exists>e'. runBeforeHandlers [redirectTimes k final] ev w
          = (Some e', w @ [BeforePolled 0 (targetPath (to' ev))])"
  by (auto simp: runBeforeHandlers_def redirectTimes_def)

lemma redirect_chain_dies:
  assumes wf: "wellConfigured env"
      and bh: "beforeHandlers env = [redirectTimes k final]"
  shows "25 \<le> k - length (world s) + depth \<Longrightarrow>
         final = Inl e \<or> 26 \<le> k - length (world s) + depth \<Longrightarrow> depth \<le> 25 \<Longrightarrow>
         entryAt (entries (cellGet env s)) (index (cellGet env s)) = Some current \<Longrightarrow>
         fst (runNavigationEvent env ev s depth False) = Die ''Redirect loop detected.''
         \<and> length (world (snd (runNavigationEvent env ev s depth False)))
             = length (world s) + 26 - depth
         \<and> transition (cell (snd (runNavigationEvent env ev s depth False))) \<noteq> None"
proof (induction "25 - depth" arbitrary: s ev depth)
  case 0
  then have depth: "depth = 25" by simp
  let ?w = "world s @ [BeforePolled 0 (targetPath (to' ev))]"
  from 0(3) depth have "length (world s) < k \<or> final = Inl e" by auto
  from redirectTimes_fails [OF this] obtain e' where
    b: "runBeforeHandlers (beforeHandlers env) ev (world s) = (Some e', ?w)"
    unfolding bh by blast
  show ?case
    unfolding runNavigationEvent_before_error [OF wf b] depth
    by (simp add: handleError_die)
next
  case (Suc n)
  let ?w = "world s @ [BeforePolled 0 (targetPath (to' ev))]"
  let ?s1 = "(cellWrite ((cellGet env s)\<lparr>transition := Some ev\<rparr>) s)\<lparr>world := ?w\<rparr>"
  from Suc.hyps(2) have d: "depth < 25" by simp
  from Suc.prems(1) d have lt: "length (world s) < k" by simp
  from redirectTimes_redirects [OF lt]
  have b: "runBeforeHandlers (beforeHandlers env) ev (world s)
             = (Some (RedirectError (PathString ''/next'') Undefined Undefined), ?w)"
    by (simp add: bh)
  have g: "cellGet env ?s1 = (cellGet env s)\<lparr>transition := Some ev\<rparr>"
    by (rule cellGet_in_flight [OF wf])
  have cur1: "entryAt (entries (cellGet env ?s1)) (index (cellGet env ?s1)) = Some current"
    using Suc.prems(4) by (simp add: g)
  obtain ev' s2 where
    mr: "makeRedirectEvent env (env_origin env) (PathString ''/next'') Undefined Undefined
           current ?s1 = (ev', s2)"
    by (cases "makeRedirectEvent env (env_origin env) (PathString ''/next'') Undefined
                 Undefined current ?s1") auto
  from makeRedirectEvent_frame [OF mr] have fr: "cell s2 = cell ?s1" "world s2 = ?w"
    by simp_all
  have step: "runNavigationEvent env ev s depth False
                = runNavigationEvent env ev' s2 (Suc depth) False"
    unfolding runNavigationEvent_before_error [OF wf b] handleError_redirect [OF d cur1] mr
    by simp
  have n: "n = 25 - Suc depth"
    using Suc.hyps(2) by simp
  have ge: "25 \<le> k - length (world s2) + Suc depth"
    using Suc.prems(1) lt fr(2) by simp
  have ge': "final = Inl e \<or> 26 \<le> k - length (world s2) + Suc depth"
    using Suc.prems(2) lt fr(2) by auto
  have d': "Suc depth \<le> 25"
    using d by simp
  have cur2: "entryAt (entries (cellGet env s2)) (index (cellGet env s2)) = Some current"
    using cur1 cellGet_frame [OF fr(1)] by simp
  from Suc.hyps(1) [OF n ge ge' d' cur2] d show ?case
    unfolding step by (simp add: fr(2))
qed

lemma navigate_example:
  "navigateEvent (exampleEnv bs hs) (PathString ''/foo/2'') noOptions
     (exampleSys (w :: Trace list))
     = Some (exampleEvent Push exampleEntry 1 (exampleDestination ''/foo/2'' 100 101),
             (exampleSys w)\<lparr>drawn := 2\<rparr>)"
  by code_simp

lemma navigate_chain_dies:
  assumes "25 \<le> k" and "final = Inl e \<or> 26 \<le> k"
  shows "fst (navigate (exampleEnv [redirectTimes k final] []) (PathString ''/foo/2'')
                noOptions False (exampleSys []))
           = Die ''Redirect loop detected.''
         \<and> length (world (snd (navigate (exampleEnv [redirectTimes k final] [])
                (PathString ''/foo/2'') noOptions False (exampleSys [])))) = 26
         \<and> transition (cell (snd (navigate (exampleEnv [redirectTimes k final] [])
                (PathString ''/foo/2'') noOptions False (exampleSys [])))) \<noteq> None"
proof -
  let ?E = "exampleEnv [redirectTimes k final] []"
  let ?ev = "exampleEvent Push exampleEntry 1 (exampleDestination ''/foo/2'' 100 101)"
  let ?s = "(exampleSys [])\<lparr>drawn := 2\<rparr>"
  have wf: "wellConfigured ?E"
    by (simp add: wellConfigured_def exampleEnv_def)
  have bh: "beforeHandlers ?E = [redirectTimes k final]"
    by (simp add: exampleEnv_def)
  have w: "world ?s = []"
    by (simp add: exampleSys_def)
  have cur: "entryAt (entries (cellGet ?E ?s)) (index (cellGet ?E ?s)) = Some exampleEntry"
    by (simp add: cellGet_def cellTransform_def exampleEnv_def exampleSys_def
          clampNavigationState_def sliceFrom_def relativeIndex_def entryAt_def)
  have nav: "navigate ?E (PathString ''/foo/2'') noOptions False (exampleSys [])
               = runNavigationEvent ?E ?ev ?s 0 False"
    by (simp add: navigate_def navigate_example)
  from redirect_chain_dies [OF wf bh, of ?s 0 e exampleEntry ?ev] assms cur
  show ?thesis
    unfolding nav w by simp
qed
text \<open>
  Claim C4, as stated, fails once the operation has been redirected 25 times: the depth
  guard of \<open>handleError\<close> comes before the test for \<open>CancelNavigation\<close>. Here the
  only before-handler redirects 25 times and then, on its 26th poll, cancels: the
  operation dies and the in-flight transition stays in the cell.
\<close>

theorem cancel_at_depth_25_counterexample:
  "fst (navigate (exampleEnv [redirectTimes 25 (Inl CancelNavigation)] [])
          (PathString ''/foo/2'') noOptions False (exampleSys []))
     = Die ''Redirect loop detected.''
   \<and> length (world (snd (navigate (exampleEnv [redirectTimes 25 (Inl CancelNavigation)] [])
          (PathString ''/foo/2'') noOptions False (exampleSys [])))) = 26
   \<and> transition (cell (snd (navigate (exampleEnv [redirectTimes 25 (Inl CancelNavigation)] [])
          (PathString ''/foo/2'') noOptions False (exampleSys [])))) \<noteq> None"
  by (rule navigate_chain_dies [of 25 "Inl CancelNavigation" CancelNavigation]) simp_all

text \<open>
  Claim C4, amended. When the Before phase of a transition at depth below 25 (fewer
  than 25 redirects so far in the operation) ends with \<open>CancelNavigation\<close>, from a
  handler or from a deferred effect, the operation succeeds with the current entry; in
  the cell the transition is cleared and entries and index are as before. The world
  is as the before-handlers left it and no UUID is drawn.
\<close>

theorem cancel_branch:
  assumes wf: "wellConfigured env" and d: "depth < 25"
      and cur: "entryAt (entries (cellGet env s)) (index (cellGet env s)) = Some current"
      and b: "runBeforeHandlers (beforeHandlers env) ev (world s) = (Some CancelNavigation, w)"
  shows "\<exists>s'. runNavigationEvent env ev s depth False = (Success current, s')
           \<and> transition (cellGet env s') = None
           \<and> entries (cellGet env s') = entries (cellGet env s)
           \<and> index (cellGet env s') = index (cellGet env s)
           \<and> world s' = w \<and> drawn s' = drawn s"
proof -
  let ?c = "cellGet env s"
  let ?s1 = "(cellWrite (?c\<lparr>transition := Some ev\<rparr>) s)\<lparr>world := w\<rparr>"
  let ?cleared = "\<lparr>entries = entries (cellGet env ?s1), index = index (cellGet env ?s1),
                   transition = None\<rparr>"
  have g: "cellGet env ?s1 = ?c\<lparr>transition := Some ev\<rparr>"
    by (rule cellGet_in_flight [OF wf])
  have cur1: "entryAt (entries (cellGet env ?s1)) (index (cellGet env ?s1)) = Some current"
    using cur by (simp add: g)
  have run: "runNavigationEvent env ev s depth False
               = (Success current, cellWrite (cellTransform env ?cleared) ?s1)"
    unfolding runNavigationEvent_before_error [OF wf b]
    by (rule handleError_cancel [OF d cur1])
  have "cellTransform env ?cleared = ?c\<lparr>transition := None\<rparr>"
    unfolding g by (simp add: cellTransform_cleared [OF wf])
  then have "cellGet env (cellWrite (cellTransform env ?cleared) ?s1) = ?c\<lparr>transition := None\<rparr>"
    by (simp add: cellGet_def cellTransform_transition cellTransform_idem [OF wf])
  with run show ?thesis
    by (intro exI [of _ "cellWrite (cellTransform env ?cleared) ?s1"]) simp
qed

theorem cancel_branch_witness:
  "wellConfigured (exampleEnv [scriptedHandler 0 (Defer (Some CancelNavigation))] [])
   \<and> (0::nat) < 25
   \<and> entryAt
        (entries (cellGet (exampleEnv [scriptedHandler 0 (Defer (Some CancelNavigation))] [])
                    (exampleSys [])))
        (index (cellGet (exampleEnv [scriptedHandler 0 (Defer (Some CancelNavigation))] [])
                    (exampleSys [])))
      = Some exampleEntry
   \<and> runBeforeHandlers
        (beforeHandlers (exampleEnv [scriptedHandler 0 (Defer (Some CancelNavigation))] []))
        (reloadEvent exampleEntry Undefined) (world (exampleSys []))
      = (Some CancelNavigation, [BeforePolled 0 ''/foo/1'', DeferredRun 0])
   \<and> (\<exists>s'. runNavigationEvent
              (exampleEnv [scriptedHandler 0 (Defer (Some CancelNavigation))] [])
              (reloadEvent exampleEntry Undefined) (exampleSys []) 0 False
            = (Success exampleEntry, s')
          \<and> transition (cellGet
                (exampleEnv [scriptedHandler 0 (Defer (Some CancelNavigation))] []) s') = None
          \<and> world s' = [BeforePolled 0 ''/foo/1'', DeferredRun 0])"
proof -
  let ?E = "exampleEnv [scriptedHandler 0 (Defer (Some CancelNavigation))] []"
  have wf: "wellConfigured ?E" by code_simp
  have d: "(0::nat) < 25" by simp
  have cur: "entryAt (entries (cellGet ?E (exampleSys []))) (index (cellGet ?E (exampleSys [])))
               = Some exampleEntry"
    by code_simp
  have b: "runBeforeHandlers (beforeHandlers ?E) (reloadEvent exampleEntry Undefined)
             (world (exampleSys []))
           = (Some CancelNavigation, [BeforePolled 0 ''/foo/1'', DeferredRun 0])"
    by code_simp
  from cancel_branch [OF wf d cur b]
  have "\<exists>s'. runNavigationEvent ?E (reloadEvent exampleEntry Undefined) (exampleSys []) 0 False
            = (Success exampleEntry, s')
          \<and> transition (cellGet ?E s') = None
          \<and> world s' = [BeforePolled 0 ''/foo/1'', DeferredRun 0]"
    by blast
  with wf d cur b show ?thesis
    by (intro conjI)
qed





section \<open>The redirect loop bound\<close>

lemma runHandlers_Nil [simp]: "runHandlers [] event w = w"
  by (simp add: runHandlers_def)

lemma commitAndMutate_committed:
  assumes nn: "newNavigationState env = None"
      and to: "to' ev = Dest to"
      and cm: "commit env to ev (world s) = (None, w')"
  shows "commitAndMutate env ev current False s
           = (Success to,
              (cellWrite (cellTransform env (mutate ev to current)) s)
                \<lparr>world := runHandlers (handlers env)
                   \<lparr>nav_type = type' ev, destination = to, nav_info = info ev\<rparr> w'\<rparr>)"
  using nn to cm by (simp add: commitAndMutate_def cellSet_def Let_def)

lemma redirectStep_run:
  assumes wf: "wellConfigured env"
      and step: "redirectStep env (ev, s) = Some (ev', s')"
      and d: "depth < 25"
  shows "runNavigationEvent env ev s depth False = runNavigationEvent env ev' s' (Suc depth) False"
proof -
  let ?I = "(cellGet env s)\<lparr>transition := Some ev\<rparr>"
  obtain r w where b: "runBeforeHandlers (beforeHandlers env) ev (world s) = (r, w)"
    by (cases "runBeforeHandlers (beforeHandlers env) ev (world s)") auto
  let ?s1 = "(cellWrite ?I s)\<lparr>world := w\<rparr>"
  from step b obtain path rs ri where r: "r = Some (RedirectError path rs ri)"
    by (auto simp: redirectStep_def cellSet_transition [OF wf] Let_def
          split: option.splits BeforeError.splits)
  from step b r obtain current where
    cur: "entryAt (entries (cellGet env ?s1)) (index (cellGet env ?s1)) = Some current"
    and mr: "makeRedirectEvent env (env_origin env) path rs ri current ?s1 = (ev', s')"
    by (auto simp: redirectStep_def cellSet_transition [OF wf] Let_def split: option.splits)
  show ?thesis
    unfolding runNavigationEvent_before_error [OF wf b [unfolded r]]
      handleError_redirect [OF d cur] mr
    by simp
qed

lemma redirectChain_run:
  assumes wf: "wellConfigured env"
  shows "redirectChain env n (ev, s) = Some (evn, sn) \<Longrightarrow> depth + n \<le> 25 \<Longrightarrow>
         runNavigationEvent env ev s depth False
           = runNavigationEvent env evn sn (depth + n) False"
proof (induction n arbitrary: ev s depth)
  case 0
  then show ?case by simp
next
  case (Suc n)
  from Suc.prems(1) obtain ev' s' where
    step: "redirectStep env (ev, s) = Some (ev', s')"
    and rest: "redirectChain env n (ev', s') = Some (evn, sn)"
    by (auto split: option.splits)
  from Suc.prems(2) have d: "depth < 25" and le: "Suc depth + n \<le> 25"
    by simp_all
  from redirectStep_run [OF wf step d] Suc.IH [OF rest le] show ?case
    by simp
qed

lemma example_redirect:
  "makeRedirectEvent (exampleEnv bs hs) (env_origin (exampleEnv bs hs)) (PathString ''/next'')
     Undefined Undefined current s
     = (exampleEvent Replace current 0
          (exampleDestination ''/next'' (100 + drawn s) (101 + drawn s)),
        s\<lparr>drawn := drawn s + 2\<rparr>)"
  by (simp add: makeRedirectEvent_def makeDestination_def makeUuid_def getUrl_def
        exampleEnv_def exampleNewURL_def exampleUrl_def exampleEvent_def
        exampleDestination_def Let_def)

lemma redirect_chain_completes:
  fixes s :: "Trace list Sys"
  defines "E \<equiv> \<lambda>k. exampleEnv [redirectTimes k (Inr None)] []"
  shows "k - length (world s) + depth \<le> 25 \<Longrightarrow>
         entryAt (entries (cellGet (E k) s)) (index (cellGet (E k) s)) = Some current \<Longrightarrow>
         to' ev = Dest to \<Longrightarrow>
         fst (runNavigationEvent (E k) ev s depth False)
           = Success (if k \<le> length (world s) then to
                      else exampleDestination ''/next''
                             (98 + drawn s + 2 * (k - length (world s)))
                             (99 + drawn s + 2 * (k - length (world s))))
         \<and> length (world (snd (runNavigationEvent (E k) ev s depth False)))
             = max k (length (world s)) + 1"
proof (induction "k - length (world s)" arbitrary: s ev depth to)
  case 0
  have wf: "wellConfigured (E k)"
    by (simp add: E_def wellConfigured_def exampleEnv_def)
  have nn: "newNavigationState (E k) = None"
    by (simp add: E_def exampleEnv_def)
  from 0 have le: "k \<le> length (world s)" by simp
  let ?w = "world s @ [BeforePolled 0 (targetPath (to' ev))]"
  from redirectTimes_passes [OF le]
  have b: "runBeforeHandlers (beforeHandlers (E k)) ev (world s) = (None, ?w)"
    by (simp add: E_def exampleEnv_def)
  have cm: "commit (E k) to ev
              (world ((cellWrite ((cellGet (E k) s)\<lparr>transition := Some ev\<rparr>) s)
                        \<lparr>world := ?w\<rparr>)) = (None, ?w)"
    by (simp add: E_def exampleEnv_def)
  have hs: "handlers (E k) = []"
    by (simp add: E_def exampleEnv_def)
  show ?case
    unfolding runNavigationEvent_before_ok [OF wf b]
      commitAndMutate_committed [OF nn "0.prems"(3) cm]
    using le by (simp add: hs)
next
  case (Suc n)
  have wf: "wellConfigured (E k)"
    by (simp add: E_def wellConfigured_def exampleEnv_def)
  let ?w = "world s @ [BeforePolled 0 (targetPath (to' ev))]"
  let ?s1 = "(cellWrite ((cellGet (E k) s)\<lparr>transition := Some ev\<rparr>) s)\<lparr>world := ?w\<rparr>"
  let ?to = "exampleDestination ''/next'' (100 + drawn s) (101 + drawn s)"
  let ?ev' = "exampleEvent Replace current 0 ?to"
  let ?s2 = "?s1\<lparr>drawn := drawn s + 2\<rparr>"
  from Suc.hyps(2) have lt: "length (world s) < k" by simp
  from Suc.hyps(2) Suc.prems(1) have d: "depth < 25" by simp
  from redirectTimes_redirects [OF lt]
  have b: "runBeforeHandlers (beforeHandlers (E k)) ev (world s)
             = (Some (RedirectError (PathString ''/next'') Undefined Undefined), ?w)"
    by (simp add: E_def exampleEnv_def)
  have g: "cellGet (E k) ?s1 = (cellGet (E k) s)\<lparr>transition := Some ev\<rparr>"
    by (rule cellGet_in_flight [OF wf])
  have cur1: "entryAt (entries (cellGet (E k) ?s1)) (index (cellGet (E k) ?s1)) = Some current"
    using Suc.prems(2) by (simp add: g)
  have mr: "makeRedirectEvent (E k) (env_origin (E k)) (PathString ''/next'') Undefined
              Undefined current ?s1 = (?ev', ?s2)"
    unfolding E_def example_redirect by simp
  have step: "runNavigationEvent (E k) ev s depth False
                = runNavigationEvent (E k) ?ev' ?s2 (Suc depth) False"
    unfolding runNavigationEvent_before_error [OF wf b] handleError_redirect [OF d cur1] mr
    by simp
  have w2: "world ?s2 = ?w" and dr: "drawn ?s2 = drawn s + 2"
    by simp_all
  have n: "n = k - length (world ?s2)"
    using Suc.hyps(2) by simp
  have le: "k - length (world ?s2) + Suc depth \<le> 25"
    using Suc.hyps(2) Suc.prems(1) by simp
  have cur2: "entryAt (entries (cellGet (E k) ?s2)) (index (cellGet (E k) ?s2)) = Some current"
    using cur1 by (simp add: cellGet_def)
  have to: "to' ?ev' = Dest ?to"
    by (simp add: exampleEvent_def)
  have arith: "(if k \<le> length ?w then ?to
                else exampleDestination ''/next''
                       (98 + (drawn s + 2) + 2 * (k - length ?w))
                       (99 + (drawn s + 2) + 2 * (k - length ?w)))
               = exampleDestination ''/next''
                   (98 + drawn s + 2 * (k - length (world s)))
                   (99 + drawn s + 2 * (k - length (world s)))"
  proof (cases "k \<le> length ?w")
    case True
    with lt have "k - length (world s) = 1" by simp
    with True show ?thesis by simp
  next
    case False
    then have "2 * (k - length (world s)) = 2 + 2 * (k - length ?w)" by simp
    with False show ?thesis by (simp add: add.assoc)
  qed
  have mx: "max k (length ?w) = max k (length (world s))"
    using lt by simp
  from Suc.hyps(1) [OF n le cur2 to] lt show ?case
    unfolding step w2 dr arith mx by simp
qed

lemma navigate_chain_completes:
  assumes "k \<le> 25" and "0 < k"
  shows "fst (navigate (exampleEnv [redirectTimes k (Inr None)] []) (PathString ''/foo/2'')
                noOptions False (exampleSys []))
           = Success (exampleDestination ''/next'' (100 + 2 * k) (101 + 2 * k))
         \<and> length (world (snd (navigate (exampleEnv [redirectTimes k (Inr None)] [])
                (PathString ''/foo/2'') noOptions False (exampleSys [])))) = k + 1"
proof -
  let ?E = "exampleEnv [redirectTimes k (Inr None)] []"
  let ?to = "exampleDestination ''/foo/2'' 100 101"
  let ?ev = "exampleEvent Push exampleEntry 1 ?to"
  let ?s = "(exampleSys [])\<lparr>drawn := 2\<rparr>"
  have w: "world ?s = []" and dr: "drawn ?s = 2"
    by (simp_all add: exampleSys_def)
  have cur: "entryAt (entries (cellGet ?E ?s)) (index (cellGet ?E ?s)) = Some exampleEntry"
    by (simp add: cellGet_def cellTransform_def exampleEnv_def exampleSys_def
          clampNavigationState_def sliceFrom_def relativeIndex_def entryAt_def)
  have to: "to' ?ev = Dest ?to"
    by (simp add: exampleEvent_def)
  have nav: "navigate ?E (PathString ''/foo/2'') noOptions False (exampleSys [])
               = runNavigationEvent ?E ?ev ?s 0 False"
    by (simp add: navigate_def navigate_example)
  have le: "k - length (world ?s) + 0 \<le> 25"
    using assms(1) by (simp add: w)
  from redirect_chain_completes [OF le cur to] assms(2)
  show ?thesis
    unfolding nav w dr by simp
qed

text \<open>
  Claim C6, as stated, fails at depth 25 itself: reaching depth 25 does not abort the
  operation. The guard sits in \<open>handleError\<close>, so it fires only when the Before phase
  of the transition at depth 25 fails. Here the only before-handler redirects on its
  first 25 polls and lets the navigation pass on the 26th, which is the poll of the
  transition at depth 25: the operation completes with the destination of the 25th
  redirect, after 26 polls. Likewise a transition that is started at depth 25 with no
  before-handler at all completes.
\<close>

theorem redirect_chain_of_25_counterexample:
  "fst (navigate (exampleEnv [redirectTimes 25 (Inr None)] [])
          (PathString ''/foo/2'') noOptions False (exampleSys []))
     = Success (exampleDestination ''/next'' 150 151)
   \<and> length (world (snd (navigate (exampleEnv [redirectTimes 25 (Inr None)] [])
          (PathString ''/foo/2'') noOptions False (exampleSys [])))) = 26
   \<and> fst (runNavigationEvent (exampleEnv [] []) (reloadEvent exampleEntry Undefined)
          (exampleSys ()) 25 False)
     = Success exampleEntry"
proof -
  have "fst (runNavigationEvent (exampleEnv [] []) (reloadEvent exampleEntry Undefined)
          (exampleSys ()) 25 False)
     = Success exampleEntry"
    by code_simp
  with navigate_chain_completes [of 25] show ?thesis
    by simp
qed

text \<open>
  Claim C6, amended. The two functions \<open>runNavigationEvent\<close> and \<open>handleError\<close> are
  total: their mutual recursion is accepted with the measure \<open>25 - depth\<close>, so every
  operation returns. Each redirect runs the redirect event at depth + 1: a transition
  at \<open>depth\<close> whose Before phase is redirected \<open>n\<close> times in a row
  (\<open>redirectChain\<close>), with \<open>depth + n \<le> 25\<close>, is the transition of the last redirect
  event \<open>evn\<close> at \<open>depth + n\<close>. The engine aborts with the defect
  \<open>Redirect loop detected.\<close> when the Before phase of a transition at depth 25 fails,
  with a redirect or a cancel, that is at the 26th failure of one operation; the cell
  then still holds the transition of that event (\<open>inflight\<close>) and the world is as the
  before-handlers left it. A chain of at most 25 redirects whose last event passes the
  before-handlers, also at depth 25, completes normally when the commit succeeds: the
  operation succeeds with the target of the last redirect event, the cell is written
  with \<open>inflight\<close> and then with the mutated state, and the after-handlers run on the
  world the commit left.
\<close>

theorem redirect_loop_bound:
  assumes wf: "wellConfigured env"
      and chain: "redirectChain env n (ev, s) = Some (evn, sn)"
      and le: "depth + n \<le> 25"
      and fl: "inflight = (cellGet env sn)\<lparr>transition := Some evn\<rparr>"
  shows "runNavigationEvent env ev s depth False
           = runNavigationEvent env evn sn (depth + n) False
     \<and> (depth + n = 25
          \<and> runBeforeHandlers (beforeHandlers env) evn (world sn) = (Some e, w) \<longrightarrow>
          runNavigationEvent env ev s depth False
            = (Die ''Redirect loop detected.'', (cellWrite inflight sn)\<lparr>world := w\<rparr>))
     \<and> (runBeforeHandlers (beforeHandlers env) evn (world sn) = (None, w)
          \<and> newNavigationState env = None
          \<and> to' evn = Dest to
          \<and> commit env to evn w = (None, w') \<longrightarrow>
          runNavigationEvent env ev s depth False
            = (Success to,
               (cellWrite (cellTransform env (mutate evn to inflight)) (cellWrite inflight sn))
                 \<lparr>world := runHandlers (handlers env)
                    \<lparr>nav_type = type' evn, destination = to, nav_info = info evn\<rparr> w'\<rparr>))"
proof -
  have run: "runNavigationEvent env ev s depth False
               = runNavigationEvent env evn sn (depth + n) False"
    by (rule redirectChain_run [OF wf chain le])
  have die: "runNavigationEvent env ev s depth False
               = (Die ''Redirect loop detected.'', (cellWrite inflight sn)\<lparr>world := w\<rparr>)"
    if "depth + n = 25 \<and> runBeforeHandlers (beforeHandlers env) evn (world sn) = (Some e, w)"
  proof -
    from that have d: "depth + n = 25"
      and b: "runBeforeHandlers (beforeHandlers env) evn (world sn) = (Some e, w)"
      by simp_all
    show ?thesis
      unfolding run d fl runNavigationEvent_before_error [OF wf b]
      by (rule handleError_die) simp
  qed
  have ok: "runNavigationEvent env ev s depth False
            = (Success to,
               (cellWrite (cellTransform env (mutate evn to inflight)) (cellWrite inflight sn))
                 \<lparr>world := runHandlers (handlers env)
                    \<lparr>nav_type = type' evn, destination = to, nav_info = info evn\<rparr> w'\<rparr>)"
    if "runBeforeHandlers (beforeHandlers env) evn (world sn) = (None, w)
          \<and> newNavigationState env = None
          \<and> to' evn = Dest to
          \<and> commit env to evn w = (None, w')"
  proof -
    from that have b: "runBeforeHandlers (beforeHandlers env) evn (world sn) = (None, w)"
      and nn: "newNavigationState env = None"
      and to: "to' evn = Dest to"
      and cm: "commit env to evn w = (None, w')"
      by simp_all
    have cm': "commit env to evn (world ((cellWrite inflight sn)\<lparr>world := w\<rparr>)) = (None, w')"
      using cm by simp
    show ?thesis
      unfolding run runNavigationEvent_before_ok [OF wf b] fl [symmetric]
        commitAndMutate_committed [OF nn to cm']
      by simp
  qed
  from run die ok show ?thesis
    by blast
qed

theorem redirect_loop_bound_witness:
  "wellConfigured (exampleEnv [redirectTimes 1 (Inr None)] [recordingHandler 0])
   \<and> redirectChain (exampleEnv [redirectTimes 1 (Inr None)] [recordingHandler 0]) 1
     ((exampleEvent Push exampleEntry 1 (exampleDestination ''/foo/2'' 100 101)), ((exampleSys
     [])\<lparr>drawn := 2\<rparr>)) = Some ((exampleEvent Replace exampleEntry 0
     (exampleDestination ''/next'' 102 103)), \<lparr>cell = \<lparr>entries = [exampleEntry],
     index = 0, transition = Some (exampleEvent Push exampleEntry 1 (exampleDestination
     ''/foo/2'' 100 101))\<rparr>, writes = [\<lparr>entries = [exampleEntry], index = 0,
     transition = Some (exampleEvent Push exampleEntry 1 (exampleDestination ''/foo/2'' 100
     101))\<rparr>], drawn = 4, world = [BeforePolled 0 ''/foo/2'']\<rparr>)
   \<and> (0::nat) + 1 \<le> 25
   \<and> \<lparr>entries = [exampleEntry], index = 0, transition = Some (exampleEvent Replace
     exampleEntry 0 (exampleDestination ''/next'' 102 103))\<rparr> = (cellGet (exampleEnv
     [redirectTimes 1 (Inr None)] [recordingHandler 0]) \<lparr>cell = \<lparr>entries =
     [exampleEntry], index = 0, transition = Some (exampleEvent Push exampleEntry 1
     (exampleDestination ''/foo/2'' 100 101))\<rparr>, writes = [\<lparr>entries =
     [exampleEntry], index = 0, transition = Some (exampleEvent Push exampleEntry 1
     (exampleDestination ''/foo/2'' 100 101))\<rparr>], drawn = 4, world = [BeforePolled 0
     ''/foo/2'']\<rparr>)\<lparr>transition := Some (exampleEvent Replace exampleEntry 0
     (exampleDestination ''/next'' 102 103))\<rparr>
   \<and> runBeforeHandlers (beforeHandlers (exampleEnv [redirectTimes 1 (Inr None)]
     [recordingHandler 0])) (exampleEvent Replace exampleEntry 0 (exampleDestination ''/next''
     102 103)) (world \<lparr>cell = \<lparr>entries = [exampleEntry], index = 0, transition =
     Some (exampleEvent Push exampleEntry 1 (exampleDestination ''/foo/2'' 100 101))\<rparr>,
     writes = [\<lparr>entries = [exampleEntry], index = 0, transition = Some (exampleEvent Push
     exampleEntry 1 (exampleDestination ''/foo/2'' 100 101))\<rparr>], drawn = 4, world =
     [BeforePolled 0 ''/foo/2'']\<rparr>) = (None, [BeforePolled 0 ''/foo/2'', BeforePolled 0
     ''/next''])
   \<and> newNavigationState (exampleEnv [redirectTimes 1 (Inr None)] [recordingHandler 0]) = None
   \<and> to' (exampleEvent Replace exampleEntry 0 (exampleDestination ''/next'' 102 103)) = Dest
     (exampleDestination ''/next'' 102 103)
   \<and> commit (exampleEnv [redirectTimes 1 (Inr None)] [recordingHandler 0]) (exampleDestination
     ''/next'' 102 103) (exampleEvent Replace exampleEntry 0 (exampleDestination ''/next'' 102
     103)) [BeforePolled 0 ''/foo/2'', BeforePolled 0 ''/next''] = (None, [BeforePolled 0
     ''/foo/2'', BeforePolled 0 ''/next''])
   \<and> wellConfigured (exampleEnv [redirectTimes 2 (Inr None)] [recordingHandler 0])
   \<and> redirectChain (exampleEnv [redirectTimes 2 (Inr None)] [recordingHandler 0]) 1
     ((exampleEvent Push exampleEntry 1 (exampleDestination ''/foo/2'' 100 101)), ((exampleSys
     [])\<lparr>drawn := 2\<rparr>)) = Some ((exampleEvent Replace exampleEntry 0
     (exampleDestination ''/next'' 102 103)), \<lparr>cell = \<lparr>entries = [exampleEntry],
     index = 0, transition = Some (exampleEvent Push exampleEntry 1 (exampleDestination
     ''/foo/2'' 100 101))\<rparr>, writes = [\<lparr>entries = [exampleEntry], index = 0,
     transition = Some (exampleEvent Push exampleEntry 1 (exampleDestination ''/foo/2'' 100
     101))\<rparr>], drawn = 4, world = [BeforePolled 0 ''/foo/2'']\<rparr>)
   \<and> \<lparr>entries = [exampleEntry], index = 0, transition = Some (exampleEvent Replace
     exampleEntry 0 (exampleDestination ''/next'' 102 103))\<rparr> = (cellGet (exampleEnv
     [redirectTimes 2 (Inr None)] [recordingHandler 0]) \<lparr>cell = \<lparr>entries =
     [exampleEntry], index = 0, transition = Some (exampleEvent Push exampleEntry 1
     (exampleDestination ''/foo/2'' 100 101))\<rparr>, writes = [\<lparr>entries =
     [exampleEntry], index = 0, transition = Some (exampleEvent Push exampleEntry 1
     (exampleDestination ''/foo/2'' 100 101))\<rparr>], drawn = 4, world = [BeforePolled 0
     ''/foo/2'']\<rparr>)\<lparr>transition := Some (exampleEvent Replace exampleEntry 0
     (exampleDestination ''/next'' 102 103))\<rparr>
   \<and> (24::nat) + 1 \<le> 25
   \<and> (24::nat) + 1 = 25
   \<and> runBeforeHandlers (beforeHandlers (exampleEnv [redirectTimes 2 (Inr None)]
     [recordingHandler 0])) (exampleEvent Replace exampleEntry 0 (exampleDestination ''/next''
     102 103)) (world \<lparr>cell = \<lparr>entries = [exampleEntry], index = 0, transition =
     Some (exampleEvent Push exampleEntry 1 (exampleDestination ''/foo/2'' 100 101))\<rparr>,
     writes = [\<lparr>entries = [exampleEntry], index = 0, transition = Some (exampleEvent Push
     exampleEntry 1 (exampleDestination ''/foo/2'' 100 101))\<rparr>], drawn = 4, world =
     [BeforePolled 0 ''/foo/2'']\<rparr>) = (Some (RedirectError (PathString ''/next'')
     Undefined Undefined), [BeforePolled 0 ''/foo/2'', BeforePolled 0 ''/next''])
   \<and> runNavigationEvent (exampleEnv [redirectTimes 1 (Inr None)] [recordingHandler 0])
     (exampleEvent Push exampleEntry 1 (exampleDestination ''/foo/2'' 100 101)) ((exampleSys
     [])\<lparr>drawn := 2\<rparr>) 0 False = runNavigationEvent (exampleEnv [redirectTimes 1
     (Inr None)] [recordingHandler 0]) (exampleEvent Replace exampleEntry 0 (exampleDestination
     ''/next'' 102 103)) \<lparr>cell = \<lparr>entries = [exampleEntry], index = 0, transition
     = Some (exampleEvent Push exampleEntry 1 (exampleDestination ''/foo/2'' 100 101))\<rparr>,
     writes = [\<lparr>entries = [exampleEntry], index = 0, transition = Some (exampleEvent Push
     exampleEntry 1 (exampleDestination ''/foo/2'' 100 101))\<rparr>], drawn = 4, world =
     [BeforePolled 0 ''/foo/2'']\<rparr> (0 + 1) False
   \<and> runNavigationEvent (exampleEnv [redirectTimes 1 (Inr None)] [recordingHandler 0])
     (exampleEvent Push exampleEntry 1 (exampleDestination ''/foo/2'' 100 101)) ((exampleSys
     [])\<lparr>drawn := 2\<rparr>) 0 False = (Success (exampleDestination ''/next'' 102 103),
     \<lparr>cell = \<lparr>entries = [(exampleDestination ''/next'' 102 103)], index = 0,
     transition = None\<rparr>, writes = [\<lparr>entries = [exampleEntry], index = 0,
     transition = Some (exampleEvent Push exampleEntry 1 (exampleDestination ''/foo/2'' 100
     101))\<rparr>, \<lparr>entries = [exampleEntry], index = 0, transition = Some (exampleEvent
     Replace exampleEntry 0 (exampleDestination ''/next'' 102 103))\<rparr>, \<lparr>entries =
     [(exampleDestination ''/next'' 102 103)], index = 0, transition = None\<rparr>], drawn = 4,
     world = [BeforePolled 0 ''/foo/2'', BeforePolled 0 ''/next'', AfterPolled 0
     ''/next'']\<rparr>)
   \<and> runNavigationEvent (exampleEnv [redirectTimes 2 (Inr None)] [recordingHandler 0])
     (exampleEvent Push exampleEntry 1 (exampleDestination ''/foo/2'' 100 101)) ((exampleSys
     [])\<lparr>drawn := 2\<rparr>) 24 False = (Die ''Redirect loop detected.'', \<lparr>cell =
     \<lparr>entries = [exampleEntry], index = 0, transition = Some (exampleEvent Replace
     exampleEntry 0 (exampleDestination ''/next'' 102 103))\<rparr>, writes = [\<lparr>entries =
     [exampleEntry], index = 0, transition = Some (exampleEvent Push exampleEntry 1
     (exampleDestination ''/foo/2'' 100 101))\<rparr>, \<lparr>entries = [exampleEntry], index =
     0, transition = Some (exampleEvent Replace exampleEntry 0 (exampleDestination ''/next'' 102
     103))\<rparr>], drawn = 4, world = [BeforePolled 0 ''/foo/2'', BeforePolled 0
     ''/next'']\<rparr>)"
proof -
  have wfa:
    "wellConfigured (exampleEnv [redirectTimes 1 (Inr None)] [recordingHandler 0])"
    by code_simp
  have cha:
    "redirectChain (exampleEnv [redirectTimes 1 (Inr None)] [recordingHandler 0]) 1
     ((exampleEvent Push exampleEntry 1 (exampleDestination ''/foo/2'' 100 101)), ((exampleSys
     [])\<lparr>drawn := 2\<rparr>)) = Some ((exampleEvent Replace exampleEntry 0
     (exampleDestination ''/next'' 102 103)), \<lparr>cell = \<lparr>entries = [exampleEntry],
     index = 0, transition = Some (exampleEvent Push exampleEntry 1 (exampleDestination
     ''/foo/2'' 100 101))\<rparr>, writes = [\<lparr>entries = [exampleEntry], index = 0,
     transition = Some (exampleEvent Push exampleEntry 1 (exampleDestination ''/foo/2'' 100
     101))\<rparr>], drawn = 4, world = [BeforePolled 0 ''/foo/2'']\<rparr>)"
    by code_simp
  have le:
    "(0::nat) + 1 \<le> 25"
    by simp
  have fl:
    "\<lparr>entries = [exampleEntry], index = 0, transition = Some (exampleEvent Replace
     exampleEntry 0 (exampleDestination ''/next'' 102 103))\<rparr> = (cellGet (exampleEnv
     [redirectTimes 1 (Inr None)] [recordingHandler 0]) \<lparr>cell = \<lparr>entries =
     [exampleEntry], index = 0, transition = Some (exampleEvent Push exampleEntry 1
     (exampleDestination ''/foo/2'' 100 101))\<rparr>, writes = [\<lparr>entries =
     [exampleEntry], index = 0, transition = Some (exampleEvent Push exampleEntry 1
     (exampleDestination ''/foo/2'' 100 101))\<rparr>], drawn = 4, world = [BeforePolled 0
     ''/foo/2'']\<rparr>)\<lparr>transition := Some (exampleEvent Replace exampleEntry 0
     (exampleDestination ''/next'' 102 103))\<rparr>"
    by code_simp
  have ba:
    "runBeforeHandlers (beforeHandlers (exampleEnv [redirectTimes 1 (Inr None)]
     [recordingHandler 0])) (exampleEvent Replace exampleEntry 0 (exampleDestination ''/next''
     102 103)) (world \<lparr>cell = \<lparr>entries = [exampleEntry], index = 0, transition =
     Some (exampleEvent Push exampleEntry 1 (exampleDestination ''/foo/2'' 100 101))\<rparr>,
     writes = [\<lparr>entries = [exampleEntry], index = 0, transition = Some (exampleEvent Push
     exampleEntry 1 (exampleDestination ''/foo/2'' 100 101))\<rparr>], drawn = 4, world =
     [BeforePolled 0 ''/foo/2'']\<rparr>) = (None, [BeforePolled 0 ''/foo/2'', BeforePolled 0
     ''/next''])"
    by code_simp
  have nn:
    "newNavigationState (exampleEnv [redirectTimes 1 (Inr None)] [recordingHandler 0]) = None"
    by code_simp
  have to:
    "to' (exampleEvent Replace exampleEntry 0 (exampleDestination ''/next'' 102 103)) = Dest
     (exampleDestination ''/next'' 102 103)"
    by code_simp
  have cm:
    "commit (exampleEnv [redirectTimes 1 (Inr None)] [recordingHandler 0]) (exampleDestination
     ''/next'' 102 103) (exampleEvent Replace exampleEntry 0 (exampleDestination ''/next'' 102
     103)) [BeforePolled 0 ''/foo/2'', BeforePolled 0 ''/next''] = (None, [BeforePolled 0
     ''/foo/2'', BeforePolled 0 ''/next''])"
    by code_simp
  have wfb:
    "wellConfigured (exampleEnv [redirectTimes 2 (Inr None)] [recordingHandler 0])"
    by code_simp
  have chb:
    "redirectChain (exampleEnv [redirectTimes 2 (Inr None)] [recordingHandler 0]) 1
     ((exampleEvent Push exampleEntry 1 (exampleDestination ''/foo/2'' 100 101)), ((exampleSys
     [])\<lparr>drawn := 2\<rparr>)) = Some ((exampleEvent Replace exampleEntry 0
     (exampleDestination ''/next'' 102 103)), \<lparr>cell = \<lparr>entries = [exampleEntry],
     index = 0, transition = Some (exampleEvent Push exampleEntry 1 (exampleDestination
     ''/foo/2'' 100 101))\<rparr>, writes = [\<lparr>entries = [exampleEntry], index = 0,
     transition = Some (exampleEvent Push exampleEntry 1 (exampleDestination ''/foo/2'' 100
     101))\<rparr>], drawn = 4, world = [BeforePolled 0 ''/foo/2'']\<rparr>)"
    by code_simp
  have flb:
    "\<lparr>entries = [exampleEntry], index = 0, transition = Some (exampleEvent Replace
     exampleEntry 0 (exampleDestination ''/next'' 102 103))\<rparr> = (cellGet (exampleEnv
     [redirectTimes 2 (Inr None)] [recordingHandler 0]) \<lparr>cell = \<lparr>entries =
     [exampleEntry], index = 0, transition = Some (exampleEvent Push exampleEntry 1
     (exampleDestination ''/foo/2'' 100 101))\<rparr>, writes = [\<lparr>entries =
     [exampleEntry], index = 0, transition = Some (exampleEvent Push exampleEntry 1
     (exampleDestination ''/foo/2'' 100 101))\<rparr>], drawn = 4, world = [BeforePolled 0
     ''/foo/2'']\<rparr>)\<lparr>transition := Some (exampleEvent Replace exampleEntry 0
     (exampleDestination ''/next'' 102 103))\<rparr>"
    by code_simp
  have leb:
    "(24::nat) + 1 \<le> 25"
    by simp
  have dn:
    "(24::nat) + 1 = 25"
    by simp
  have bb:
    "runBeforeHandlers (beforeHandlers (exampleEnv [redirectTimes 2 (Inr None)]
     [recordingHandler 0])) (exampleEvent Replace exampleEntry 0 (exampleDestination ''/next''
     102 103)) (world \<lparr>cell = \<lparr>entries = [exampleEntry], index = 0, transition =
     Some (exampleEvent Push exampleEntry 1 (exampleDestination ''/foo/2'' 100 101))\<rparr>,
     writes = [\<lparr>entries = [exampleEntry], index = 0, transition = Some (exampleEvent Push
     exampleEntry 1 (exampleDestination ''/foo/2'' 100 101))\<rparr>], drawn = 4, world =
     [BeforePolled 0 ''/foo/2'']\<rparr>) = (Some (RedirectError (PathString ''/next'')
     Undefined Undefined), [BeforePolled 0 ''/foo/2'', BeforePolled 0 ''/next''])"
    by code_simp
  have eqa:
    "\<lparr>cell = \<lparr>entries = [(exampleDestination ''/next'' 102 103)], index = 0,
     transition = None\<rparr>, writes = [\<lparr>entries = [exampleEntry], index = 0,
     transition = Some (exampleEvent Push exampleEntry 1 (exampleDestination ''/foo/2'' 100
     101))\<rparr>, \<lparr>entries = [exampleEntry], index = 0, transition = Some (exampleEvent
     Replace exampleEntry 0 (exampleDestination ''/next'' 102 103))\<rparr>, \<lparr>entries =
     [(exampleDestination ''/next'' 102 103)], index = 0, transition = None\<rparr>], drawn = 4,
     world = [BeforePolled 0 ''/foo/2'', BeforePolled 0 ''/next'', AfterPolled 0
     ''/next'']\<rparr>
     = (cellWrite (cellTransform (exampleEnv [redirectTimes 1 (Inr None)] [recordingHandler 0])
       (mutate (exampleEvent Replace exampleEntry 0 (exampleDestination ''/next'' 102 103))
       (exampleDestination ''/next'' 102 103) \<lparr>entries = [exampleEntry], index = 0,
       transition = Some (exampleEvent Replace exampleEntry 0 (exampleDestination ''/next'' 102
       103))\<rparr>)) (cellWrite \<lparr>entries = [exampleEntry], index = 0, transition = Some
       (exampleEvent Replace exampleEntry 0 (exampleDestination ''/next'' 102 103))\<rparr>
       \<lparr>cell = \<lparr>entries = [exampleEntry], index = 0, transition = Some
       (exampleEvent Push exampleEntry 1 (exampleDestination ''/foo/2'' 100 101))\<rparr>,
       writes = [\<lparr>entries = [exampleEntry], index = 0, transition = Some (exampleEvent
       Push exampleEntry 1 (exampleDestination ''/foo/2'' 100 101))\<rparr>], drawn = 4, world =
       [BeforePolled 0 ''/foo/2'']\<rparr>))\<lparr>world := runHandlers (handlers (exampleEnv
       [redirectTimes 1 (Inr None)] [recordingHandler 0])) \<lparr>nav_type = type'
       (exampleEvent Replace exampleEntry 0 (exampleDestination ''/next'' 102 103)), destination
       = (exampleDestination ''/next'' 102 103), nav_info = info (exampleEvent Replace
       exampleEntry 0 (exampleDestination ''/next'' 102 103))\<rparr> [BeforePolled 0
       ''/foo/2'', BeforePolled 0 ''/next'']\<rparr>"
    by code_simp
  have eqb:
    "\<lparr>cell = \<lparr>entries = [exampleEntry], index = 0, transition = Some (exampleEvent
     Replace exampleEntry 0 (exampleDestination ''/next'' 102 103))\<rparr>, writes =
     [\<lparr>entries = [exampleEntry], index = 0, transition = Some (exampleEvent Push
     exampleEntry 1 (exampleDestination ''/foo/2'' 100 101))\<rparr>, \<lparr>entries =
     [exampleEntry], index = 0, transition = Some (exampleEvent Replace exampleEntry 0
     (exampleDestination ''/next'' 102 103))\<rparr>], drawn = 4, world = [BeforePolled 0
     ''/foo/2'', BeforePolled 0 ''/next'']\<rparr>
     = (cellWrite \<lparr>entries = [exampleEntry], index = 0, transition = Some (exampleEvent
       Replace exampleEntry 0 (exampleDestination ''/next'' 102 103))\<rparr> \<lparr>cell =
       \<lparr>entries = [exampleEntry], index = 0, transition = Some (exampleEvent Push
       exampleEntry 1 (exampleDestination ''/foo/2'' 100 101))\<rparr>, writes =
       [\<lparr>entries = [exampleEntry], index = 0, transition = Some (exampleEvent Push
       exampleEntry 1 (exampleDestination ''/foo/2'' 100 101))\<rparr>], drawn = 4, world =
       [BeforePolled 0 ''/foo/2'']\<rparr>)\<lparr>world := [BeforePolled 0 ''/foo/2'',
       BeforePolled 0 ''/next'']\<rparr>"
    by code_simp
  note A = redirect_loop_bound [OF wfa cha le fl]
  note B = redirect_loop_bound [OF wfb chb leb flb]
  have c1:
    "runNavigationEvent (exampleEnv [redirectTimes 1 (Inr None)] [recordingHandler 0])
     (exampleEvent Push exampleEntry 1 (exampleDestination ''/foo/2'' 100 101)) ((exampleSys
     [])\<lparr>drawn := 2\<rparr>) 0 False = runNavigationEvent (exampleEnv [redirectTimes 1
     (Inr None)] [recordingHandler 0]) (exampleEvent Replace exampleEntry 0 (exampleDestination
     ''/next'' 102 103)) \<lparr>cell = \<lparr>entries = [exampleEntry], index = 0, transition
     = Some (exampleEvent Push exampleEntry 1 (exampleDestination ''/foo/2'' 100 101))\<rparr>,
     writes = [\<lparr>entries = [exampleEntry], index = 0, transition = Some (exampleEvent Push
     exampleEntry 1 (exampleDestination ''/foo/2'' 100 101))\<rparr>], drawn = 4, world =
     [BeforePolled 0 ''/foo/2'']\<rparr> (0 + 1) False"
    by (rule A [THEN conjunct1])
  have c3:
    "runNavigationEvent (exampleEnv [redirectTimes 1 (Inr None)] [recordingHandler 0])
     (exampleEvent Push exampleEntry 1 (exampleDestination ''/foo/2'' 100 101)) ((exampleSys
     [])\<lparr>drawn := 2\<rparr>) 0 False = (Success (exampleDestination ''/next'' 102 103),
     \<lparr>cell = \<lparr>entries = [(exampleDestination ''/next'' 102 103)], index = 0,
     transition = None\<rparr>, writes = [\<lparr>entries = [exampleEntry], index = 0,
     transition = Some (exampleEvent Push exampleEntry 1 (exampleDestination ''/foo/2'' 100
     101))\<rparr>, \<lparr>entries = [exampleEntry], index = 0, transition = Some (exampleEvent
     Replace exampleEntry 0 (exampleDestination ''/next'' 102 103))\<rparr>, \<lparr>entries =
     [(exampleDestination ''/next'' 102 103)], index = 0, transition = None\<rparr>], drawn = 4,
     world = [BeforePolled 0 ''/foo/2'', BeforePolled 0 ''/next'', AfterPolled 0
     ''/next'']\<rparr>)"
    unfolding eqa
    by (rule A [THEN conjunct2, THEN conjunct2, THEN mp, OF conjI [OF ba conjI [OF nn conjI [OF to cm]]]])
  have c2:
    "runNavigationEvent (exampleEnv [redirectTimes 2 (Inr None)] [recordingHandler 0])
     (exampleEvent Push exampleEntry 1 (exampleDestination ''/foo/2'' 100 101)) ((exampleSys
     [])\<lparr>drawn := 2\<rparr>) 24 False = (Die ''Redirect loop detected.'', \<lparr>cell =
     \<lparr>entries = [exampleEntry], index = 0, transition = Some (exampleEvent Replace
     exampleEntry 0 (exampleDestination ''/next'' 102 103))\<rparr>, writes = [\<lparr>entries =
     [exampleEntry], index = 0, transition = Some (exampleEvent Push exampleEntry 1
     (exampleDestination ''/foo/2'' 100 101))\<rparr>, \<lparr>entries = [exampleEntry], index =
     0, transition = Some (exampleEvent Replace exampleEntry 0 (exampleDestination ''/next'' 102
     103))\<rparr>], drawn = 4, world = [BeforePolled 0 ''/foo/2'', BeforePolled 0
     ''/next'']\<rparr>)"
    unfolding eqb
    by (rule B [THEN conjunct2, THEN conjunct1, THEN mp, OF conjI [OF dn bb]])
  from wfa cha le fl ba nn to cm wfb chb flb leb dn bb c1 c3 c2 show ?thesis
    by (intro conjI)
qed


section \<open>The invariant of the memory cell\<close>

lemma sliceFrom_neg_nonempty:
  assumes "1 \<le> N" and "xs \<noteq> []"
  shows "sliceFrom xs (- N) \<noteq> []"
proof -
  have "length (sliceFrom xs (- N)) = min (length xs) (nat N)"
    using assms(1) by (rule length_sliceFrom_neg)
  moreover have "0 < length xs" "0 < nat N"
    using assms by simp_all
  ultimately have "0 < length (sliceFrom xs (- N))"
    by simp
  then show ?thesis
    by auto
qed

lemma entries_cellTransform_nonempty:
  "wellConfigured env \<Longrightarrow> entries a \<noteq> [] \<Longrightarrow> entries (cellTransform env a) \<noteq> []"
  by (auto simp: wellConfigured_def cellTransform_def clampNavigationState_def Let_def
        sliceFrom_neg_nonempty split: option.splits)

lemma entries_mutate_nonempty:
  "entries current \<noteq> [] \<Longrightarrow> entries (mutate ev to current) \<noteq> []"
  by (simp add: mutate_def Let_def)

lemma commitAndMutate_nonempty:
  assumes wf: "wellConfigured env" and nn: "newNavigationState env = None"
      and c: "entries current \<noteq> []" and s: "entries (cell s) \<noteq> []"
  shows "entries (cell (snd (commitAndMutate env ev current skipCommit s))) \<noteq> []"
proof -
  obtain to s1 where u: "(case to' ev of Dest d \<Rightarrow> (d, s)
                         | Proposed p \<Rightarrow> upgradeProposedDestination env p s) = (to, s1)"
    by (cases "case to' ev of Dest d \<Rightarrow> (d, s)
                 | Proposed p \<Rightarrow> upgradeProposedDestination env p s") auto
  then have s1: "cell s1 = cell s"
    by (auto simp: upgradeProposedDestination_def makeUuid_def Let_def split: Target.splits)
  obtain r w where cm: "commit env to ev (world s1) = (r, w)"
    by (cases "commit env to ev (world s1)") auto
  have m: "entries (cellTransform env (mutate ev to current)) \<noteq> []"
    by (rule entries_cellTransform_nonempty [OF wf entries_mutate_nonempty [OF c]])
  show ?thesis
    using nn u cm s s1 m
    by (cases skipCommit; cases r) (simp_all add: commitAndMutate_def cellSet_def Let_def)
qed

lemma runNavigationEvent_nonempty:
  assumes wf: "wellConfigured env" and nn: "newNavigationState env = None"
  shows "entries (cell s) \<noteq> [] \<Longrightarrow>
         entries (cell (snd (runNavigationEvent env ev s depth skipCommit))) \<noteq> []"
proof (induction "25 - depth" arbitrary: s ev depth skipCommit)
  case 0
  let ?c = "(cellGet env s)\<lparr>transition := Some ev\<rparr>"
  let ?s1 = "cellWrite ?c s"
  from 0 have depth: "25 \<le> depth" by simp
  have c: "entries ?c \<noteq> []"
    using 0(2) by (simp add: cellGet_def entries_cellTransform_nonempty [OF wf])
  show ?case
  proof (cases "skipCommit \<or> fst (runBeforeHandlers (beforeHandlers env) ev (world s)) = None")
    case True
    from runNavigationEvent_pass [OF wf True, of depth] obtain w where
      "runNavigationEvent env ev s depth skipCommit
         = commitAndMutate env ev ?c skipCommit ((cellWrite ?c s)\<lparr>world := w\<rparr>)"
      by blast
    then show ?thesis
      using commitAndMutate_nonempty [OF wf nn c, of "(cellWrite ?c s)\<lparr>world := w\<rparr>"] c
      by simp
  next
    case False
    then obtain e w where b: "runBeforeHandlers (beforeHandlers env) ev (world s) = (Some e, w)"
      and ns: "\<not> skipCommit"
      by (cases "runBeforeHandlers (beforeHandlers env) ev (world s)") auto
    show ?thesis
      using ns c runNavigationEvent_before_error [OF wf b, of depth]
      by (simp add: handleError_die [OF depth])
  qed
next
  case (Suc n)
  let ?c = "(cellGet env s)\<lparr>transition := Some ev\<rparr>"
  from Suc.hyps(2) have d: "depth < 25" by simp
  have c: "entries ?c \<noteq> []"
    using Suc.prems by (simp add: cellGet_def entries_cellTransform_nonempty [OF wf])
  show ?case
  proof (cases "skipCommit \<or> fst (runBeforeHandlers (beforeHandlers env) ev (world s)) = None")
    case True
    from runNavigationEvent_pass [OF wf True, of depth] obtain w where
      "runNavigationEvent env ev s depth skipCommit
         = commitAndMutate env ev ?c skipCommit ((cellWrite ?c s)\<lparr>world := w\<rparr>)"
      by blast
    then show ?thesis
      using commitAndMutate_nonempty [OF wf nn c, of "(cellWrite ?c s)\<lparr>world := w\<rparr>"] c
      by simp
  next
    case False
    then obtain e w where b: "runBeforeHandlers (beforeHandlers env) ev (world s) = (Some e, w)"
      and ns: "\<not> skipCommit"
      by (cases "runBeforeHandlers (beforeHandlers env) ev (world s)") auto
    let ?s1 = "(cellWrite ?c s)\<lparr>world := w\<rparr>"
    have run: "runNavigationEvent env ev s depth skipCommit = handleError env e ?s1 depth"
      using ns runNavigationEvent_before_error [OF wf b, of depth] by simp
    have s1: "entries (cell ?s1) \<noteq> []"
      using c by simp
    show ?thesis
    proof (cases "entryAt (entries (cellGet env ?s1)) (index (cellGet env ?s1))")
      case None
      then show ?thesis
        unfolding run using d s1 by (simp add: handleError.simps Let_def)
    next
      case (Some current)
      show ?thesis
      proof (cases e)
        case CancelNavigation
        have "entries (cellGet env ?s1) \<noteq> []"
          using entries_cellTransform_nonempty [OF wf s1] by (simp add: cellGet_def)
        then have "entries (cellTransform env
                     \<lparr>entries = entries (cellGet env ?s1), index = index (cellGet env ?s1),
                      transition = None\<rparr>) \<noteq> []"
          by (intro entries_cellTransform_nonempty [OF wf]) simp
        then show ?thesis
          unfolding run CancelNavigation handleError_cancel [OF d Some] by simp
      next
        case (RedirectError path rs ri)
        obtain ev' s2 where
          mr: "makeRedirectEvent env (env_origin env) path rs ri current ?s1 = (ev', s2)"
          by (cases "makeRedirectEvent env (env_origin env) path rs ri current ?s1") auto
        from makeRedirectEvent_frame [OF mr] s1 have s2: "entries (cell s2) \<noteq> []"
          by simp
        have n: "n = 25 - Suc depth"
          using Suc.hyps(2) by simp
        from Suc.hyps(1) [OF n s2, of ev' False] show ?thesis
          unfolding run RedirectError handleError_redirect [OF d Some] mr by simp
      qed
    qed
  qed
qed

lemma traverseEvent_frame:
  "traverseEvent env st from n ti s = (ev, s1) \<Longrightarrow> cell s1 = cell s"
  by (auto simp: traverseEvent_def makeUuid_def Let_def)

lemma navigate_nonempty:
  assumes wf: "wellConfigured env" and nn: "newNavigationState env = None"
      and ne: "entries (cell s) \<noteq> []"
  shows "entries (cell (snd (navigate env p opts skipCommit s))) \<noteq> []"
proof (cases "navigateEvent env p opts s")
  case None
  then show ?thesis using ne by (simp add: navigate_def)
next
  case (Some x)
  obtain ev s1 where x: "x = (ev, s1)" by (cases x)
  from navigateEvent_frame [OF Some [unfolded x]] ne have "entries (cell s1) \<noteq> []"
    by simp
  from runNavigationEvent_nonempty [OF wf nn this] show ?thesis
    by (simp add: navigate_def Some x)
qed

lemma traverseTo_nonempty:
  assumes wf: "wellConfigured env" and nn: "newNavigationState env = None"
      and ne: "entries (cell s) \<noteq> []"
  shows "entries (cell (snd (traverseTo env k ti skipCommit s))) \<noteq> []"
proof (cases "entryAt (entries (cellGet env s)) (index (cellGet env s))")
  case None
  then show ?thesis using ne by (simp add: traverseTo_def Let_def)
next
  case (Some cur)
  show ?thesis
  proof (cases "findIndex (\<lambda>e. key e = k) (entries (cellGet env s)) = -1")
    case True
    then show ?thesis using ne Some by (simp add: traverseTo_def Let_def)
  next
    case False
    obtain ev s1 where
      te: "traverseEvent env (cellGet env s) cur
             (findIndex (\<lambda>e. key e = k) (entries (cellGet env s))) ti s = (ev, s1)"
      by (cases "traverseEvent env (cellGet env s) cur
             (findIndex (\<lambda>e. key e = k) (entries (cellGet env s))) ti s") auto
    from traverseEvent_frame [OF te] ne have "entries (cell s1) \<noteq> []"
      by simp
    from runNavigationEvent_nonempty [OF wf nn this] show ?thesis
      using Some False te by (simp add: traverseTo_def Let_def)
  qed
qed

lemma back_nonempty:
  assumes wf: "wellConfigured env" and nn: "newNavigationState env = None"
      and ne: "entries (cell s) \<noteq> []"
  shows "entries (cell (snd (back' env i skipCommit s))) \<noteq> []"
  using ne traverseTo_nonempty [OF wf nn ne]
  by (simp add: back'_def Let_def split: option.splits)

lemma forward_nonempty:
  assumes wf: "wellConfigured env" and nn: "newNavigationState env = None"
      and ne: "entries (cell s) \<noteq> []"
  shows "entries (cell (snd (forward env i skipCommit s))) \<noteq> []"
  using ne traverseTo_nonempty [OF wf nn ne]
  by (simp add: forward_def Let_def split: option.splits)

lemma reload_nonempty:
  assumes wf: "wellConfigured env" and nn: "newNavigationState env = None"
      and ne: "entries (cell s) \<noteq> []"
  shows "entries (cell (snd (reload env i skipCommit s))) \<noteq> []"
  using ne runNavigationEvent_nonempty [OF wf nn ne]
  by (simp add: reload_def Let_def split: option.splits)

lemma updateCurrentEntry_nonempty:
  assumes wf: "wellConfigured env" and nn: "newNavigationState env = None"
      and ne: "entries (cell s) \<noteq> []"
  shows "entries (cell (snd (updateCurrentEntry env st s))) \<noteq> []"
  using ne runNavigationEvent_nonempty [OF wf nn ne]
  by (simp add: updateCurrentEntry_def Let_def split: option.splits)

lemma memoryEnv_wellConfigured:
  "memoryEnv options env \<Longrightarrow> 1 \<le> setupMemoryMaxEntries options \<Longrightarrow> wellConfigured env"
  by (simp add: memoryEnv_def wellConfigured_def)

lemma reachable_nonempty:
  assumes "reachable options s"
      and ne: "mem_entries options \<noteq> []" and N: "1 \<le> setupMemoryMaxEntries options"
  shows "entries (cell s) \<noteq> []"
  using assms(1)
proof (induction rule: reachable.induct)
  case (initial s)
  then show ?case using ne by (simp add: setupMemoryState_def)
next
  case (after_navigate s env pathOrUrl opts skipCommit)
  from navigate_nonempty [OF memoryEnv_wellConfigured [OF after_navigate(2) N] _
      after_navigate.IH] after_navigate(2)
  show ?case by (simp add: memoryEnv_def)
next
  case (after_back s env binfo skipCommit)
  from back_nonempty [OF memoryEnv_wellConfigured [OF after_back(2) N] _ after_back.IH]
    after_back(2)
  show ?case by (simp add: memoryEnv_def)
next
  case (after_forward s env finfo skipCommit)
  from forward_nonempty [OF memoryEnv_wellConfigured [OF after_forward(2) N] _
      after_forward.IH] after_forward(2)
  show ?case by (simp add: memoryEnv_def)
next
  case (after_traverseTo s env k tinfo skipCommit)
  from traverseTo_nonempty [OF memoryEnv_wellConfigured [OF after_traverseTo(2) N] _
      after_traverseTo.IH] after_traverseTo(2)
  show ?case by (simp add: memoryEnv_def)
next
  case (after_reload s env rinfo skipCommit)
  from reload_nonempty [OF memoryEnv_wellConfigured [OF after_reload(2) N] _ after_reload.IH]
    after_reload(2)
  show ?case by (simp add: memoryEnv_def)
next
  case (after_updateCurrentEntry s env st)
  from updateCurrentEntry_nonempty [OF memoryEnv_wellConfigured [OF after_updateCurrentEntry(2) N]
      _ after_updateCurrentEntry.IH] after_updateCurrentEntry(2)
  show ?case by (simp add: memoryEnv_def)
qed

lemma clamp_invariant:
  assumes N: "1 \<le> N" and ne: "entries a \<noteq> []"
  shows "0 \<le> index (clampNavigationState N a)
         \<and> index (clampNavigationState N a) < int (length (entries (clampNavigationState N a)))
         \<and> int (length (entries (clampNavigationState N a))) \<le> N"
proof -
  have len: "length (sliceFrom (entries a) (- N)) = min (length (entries a)) (nat N)"
    using N by (rule length_sliceFrom_neg)
  have "0 < length (entries a)" using ne by simp
  with len N have pos: "0 < length (sliceFrom (entries a) (- N))"
    and le: "int (length (sliceFrom (entries a) (- N))) \<le> N"
    by simp_all
  then show ?thesis
    by (simp add: clampNavigationState_def Let_def)
qed

text \<open>
  Claim C2, as stated, fails for the memory configurations that the options type admits
  without any check: with \<open>maxEntries = 0\<close> the clamp keeps every entry
  (\<^verbatim>\<open>slice(-0)\<close> is the whole array), so the state right after set-up holds one
  entry, more than the bound; with an empty entry list (and an \<open>origin\<close> given, so
  that \<^verbatim>\<open>memory\<close> does not read the missing entry's URL) the index of the state
  after set-up is \<open>-1\<close>.
\<close>

theorem memory_configuration_counterexample:
  "reachable \<lparr>mem_entries = [exampleEntry], mem_currentIndex = None, mem_maxEntries = Some 0\<rparr>
     (exampleSys ())
   \<and> memoryEnv \<lparr>mem_entries = [exampleEntry], mem_currentIndex = None, mem_maxEntries = Some 0\<rparr>
       ((exampleEnv [] [] :: unit Env)\<lparr>maxEntries := Some 0\<rparr>)
   \<and> setupMemoryMaxEntries
        \<lparr>mem_entries = [exampleEntry], mem_currentIndex = None, mem_maxEntries = Some 0\<rparr>
       < int (length (entries (cellGet ((exampleEnv [] [] :: unit Env)\<lparr>maxEntries := Some 0\<rparr>)
                                 (exampleSys ()))))
   \<and> reachable \<lparr>mem_entries = [], mem_currentIndex = None, mem_maxEntries = None\<rparr>
       ((exampleSys ())\<lparr>cell := \<lparr>entries = [], index = - 1, transition = None\<rparr>\<rparr>)
   \<and> memoryEnv \<lparr>mem_entries = [], mem_currentIndex = None, mem_maxEntries = None\<rparr>
       ((exampleEnv [] [] :: unit Env)\<lparr>maxEntries := Some 50\<rparr>)
   \<and> index (cellGet ((exampleEnv [] [] :: unit Env)\<lparr>maxEntries := Some 50\<rparr>)
              ((exampleSys ())\<lparr>cell := \<lparr>entries = [], index = - 1, transition = None\<rparr>\<rparr>))
      = - 1"
proof -
  have r1: "reachable
      \<lparr>mem_entries = [exampleEntry], mem_currentIndex = None, mem_maxEntries = Some 0\<rparr>
      (exampleSys ())"
    by (rule reachable.initial) (simp add: setupMemoryState_def exampleSys_def)
  have r2: "reachable \<lparr>mem_entries = [], mem_currentIndex = None, mem_maxEntries = None\<rparr>
       ((exampleSys ())\<lparr>cell := \<lparr>entries = [], index = - 1, transition = None\<rparr>\<rparr>)"
    by (rule reachable.initial) (simp add: setupMemoryState_def)
  have m1: "memoryEnv
      \<lparr>mem_entries = [exampleEntry], mem_currentIndex = None, mem_maxEntries = Some 0\<rparr>
      ((exampleEnv [] [] :: unit Env)\<lparr>maxEntries := Some 0\<rparr>)"
    by (simp add: memoryEnv_def setupMemoryMaxEntries_def exampleEnv_def)
  have m2: "memoryEnv \<lparr>mem_entries = [], mem_currentIndex = None, mem_maxEntries = None\<rparr>
       ((exampleEnv [] [] :: unit Env)\<lparr>maxEntries := Some 50\<rparr>)"
    by (simp add: memoryEnv_def setupMemoryMaxEntries_def exampleEnv_def)
  have c1: "setupMemoryMaxEntries
        \<lparr>mem_entries = [exampleEntry], mem_currentIndex = None, mem_maxEntries = Some 0\<rparr>
       < int (length (entries (cellGet ((exampleEnv [] [] :: unit Env)\<lparr>maxEntries := Some 0\<rparr>)
                                 (exampleSys ()))))"
    by code_simp
  have c2: "index (cellGet ((exampleEnv [] [] :: unit Env)\<lparr>maxEntries := Some 50\<rparr>)
              ((exampleSys ())\<lparr>cell := \<lparr>entries = [], index = - 1, transition = None\<rparr>\<rparr>))
      = - 1"
    by code_simp
  from r1 m1 c1 r2 m2 c2 show ?thesis
    by (intro conjI)
qed

text \<open>
  Claim C2, amended. For a memory navigation set up with at least one entry and with
  \<open>maxEntries \<ge> 1\<close> (50 when absent), every state \<open>S\<close> that the cell shows after any
  sequence of \<open>navigate\<close>, \<open>back\<close>, \<open>forward\<close>, \<open>traverseTo\<close>, \<open>reload\<close> and
  \<open>updateCurrentEntry\<close>, whatever the handlers and the commit do and however the
  operations end, has \<open>0 \<le> S.index < S.entries.length \<le> maxEntries\<close>.
\<close>

theorem reachable_invariant:
  assumes r: "reachable options s"
      and ne: "mem_entries options \<noteq> []" and N: "1 \<le> setupMemoryMaxEntries options"
      and env: "memoryEnv options env"
  shows "0 \<le> index (cellGet env s)
         \<and> index (cellGet env s) < int (length (entries (cellGet env s)))
         \<and> int (length (entries (cellGet env s))) \<le> setupMemoryMaxEntries options"
proof -
  from env have "cellGet env s = clampNavigationState (setupMemoryMaxEntries options) (cell s)"
    by (simp add: memoryEnv_def cellGet_def cellTransform_def)
  with clamp_invariant [OF N reachable_nonempty [OF r ne N]] show ?thesis
    by simp
qed

theorem reachable_invariant_witness:
  "reachable \<lparr>mem_entries = [exampleEntry], mem_currentIndex = None, mem_maxEntries = Some 3\<rparr>
     (snd (navigate (exampleEnv [] []) (PathString ''/foo/2'') noOptions False (exampleSys ())))
   \<and> mem_entries
        \<lparr>mem_entries = [exampleEntry], mem_currentIndex = None, mem_maxEntries = Some 3\<rparr> \<noteq> []
   \<and> 1 \<le> setupMemoryMaxEntries
        \<lparr>mem_entries = [exampleEntry], mem_currentIndex = None, mem_maxEntries = Some 3\<rparr>
   \<and> memoryEnv
        \<lparr>mem_entries = [exampleEntry], mem_currentIndex = None, mem_maxEntries = Some 3\<rparr>
        (exampleEnv [] [] :: unit Env)
   \<and> 0 \<le> index (cellGet (exampleEnv [] [])
        (snd (navigate (exampleEnv [] []) (PathString ''/foo/2'') noOptions False
                (exampleSys ()))))
   \<and> index (cellGet (exampleEnv [] [])
        (snd (navigate (exampleEnv [] []) (PathString ''/foo/2'') noOptions False
                (exampleSys ()))))
       < int (length (entries (cellGet (exampleEnv [] [])
        (snd (navigate (exampleEnv [] []) (PathString ''/foo/2'') noOptions False
                (exampleSys ()))))))
   \<and> int (length (entries (cellGet (exampleEnv [] [])
        (snd (navigate (exampleEnv [] []) (PathString ''/foo/2'') noOptions False
                (exampleSys ())))))) \<le> 3
   \<and> index (cellGet (exampleEnv [] [])
        (snd (navigate (exampleEnv [] []) (PathString ''/foo/2'') noOptions False
                (exampleSys ())))) = 1"
proof -
  let ?O = "\<lparr>mem_entries = [exampleEntry], mem_currentIndex = None, mem_maxEntries = Some 3\<rparr>"
  let ?E = "exampleEnv [] [] :: unit Env"
  let ?S = "snd (navigate ?E (PathString ''/foo/2'') noOptions False (exampleSys ()))"
  have m: "memoryEnv ?O ?E"
    by (simp add: memoryEnv_def setupMemoryMaxEntries_def exampleEnv_def)
  have i: "reachable ?O (exampleSys ())"
    by (rule reachable.initial) (simp add: setupMemoryState_def exampleSys_def)
  have r: "reachable ?O ?S"
    by (rule reachable.after_navigate [OF i m])
  have ne: "mem_entries ?O \<noteq> []" by simp
  have N: "1 \<le> setupMemoryMaxEntries ?O" by (simp add: setupMemoryMaxEntries_def)
  have N3: "setupMemoryMaxEntries ?O = 3" by (simp add: setupMemoryMaxEntries_def)
  have v: "index (cellGet ?E ?S) = 1" by code_simp
  from reachable_invariant [OF r ne N m] r ne N m v show ?thesis
    unfolding N3 by (intro conjI) simp_all
qed

end
